theory Spec2Isabelle
  imports Main "HOL-Library.Product_Lexorder" "HOL-Library.Option_ord" "HOL-Library.Multiset"
begin

section \<open>Whoppah GEO Monitor: classifier, query runner and result store\<close>

text \<open>
  A shallow embedding of \<^verbatim>\<open>schedule.py\<close> and \<^verbatim>\<open>data.py\<close>.

  Python's \<^verbatim>\<open>str\<close> is modelled as \<^typ>\<open>string\<close>, one \<^typ>\<open>char\<close> per character, so
  the model covers texts whose code points are below 256 (ASCII and Latin-1).  On that
  range \<^verbatim>\<open>str.lower()\<close> maps character to character and keeps the length.
\<close>

subsection \<open>Strings: \<^verbatim>\<open>str.lower()\<close> and the substring test \<^verbatim>\<open>needle in hay\<close>\<close>

text \<open>
  \<^verbatim>\<open>str.lower()\<close> on code points below 256: \<^verbatim>\<open>A..Z\<close> (65..90) and the Latin-1 capitals
  192..222 except the multiplication sign 215 move up by 32; everything else is unchanged.
\<close>

definition lower_char :: "char \<Rightarrow> char" where
  "lower_char c =
     (let n = (of_char c :: nat)
      in if (65 \<le> n \<and> n \<le> 90) \<or> (192 \<le> n \<and> n \<le> 222 \<and> n \<noteq> 215)
         then char_of (n + 32) else c)"

definition lower :: "string \<Rightarrow> string" where
  "lower s = map lower_char s"

fun startswith :: "string \<Rightarrow> string \<Rightarrow> bool" where
  "startswith hay [] = True"
| "startswith [] (c # cs) = False"
| "startswith (h # hs) (c # cs) = (h = c \<and> startswith hs cs)"

text \<open>\<^verbatim>\<open>needle in hay\<close>: some suffix of \<open>hay\<close> starts with \<open>needle\<close>.\<close>

fun str_in :: "string \<Rightarrow> string \<Rightarrow> bool" where
  "str_in needle [] = (needle = [])"
| "str_in needle (h # hs) = (startswith (h # hs) needle \<or> str_in needle hs)"

text \<open>\<^verbatim>\<open>any(word in lower for word in words)\<close>\<close>

definition any_word_in :: "string list \<Rightarrow> string \<Rightarrow> bool" where
  "any_word_in ws s = list_ex (\<lambda>word. str_in word s) ws"

subsection \<open>The classifier (\<^verbatim>\<open>schedule.py\<close>, \<^verbatim>\<open>analyze_response\<close>)\<close>

text \<open>\<^verbatim>\<open>SUPERLATIVES\<close> is a Python set; only membership tests under \<^verbatim>\<open>any\<close> use it,
  so its iteration order does not matter and a list carries it.\<close>

definition SUPERLATIVES :: "string list" where
  "SUPERLATIVES = [''best'', ''great'', ''excellent'', ''amazing'', ''top'', ''superior'']"

definition context_category_of :: "string \<Rightarrow> string" where
  "context_category_of lo =
     (if any_word_in [''recommend'', ''suggest'', ''best'', ''top'', ''great''] lo
        then ''Recommendation''
      else if any_word_in [''buy'', ''purchase'', ''shop'', ''find''] lo
        then ''Shopping''
      else if any_word_in [''sell'', ''selling'', ''marketplace'', ''platform''] lo
        then ''Selling''
      else if any_word_in [''vintage'', ''antique'', ''designer'', ''luxury''] lo
        then ''Premium''
      else if any_word_in [''sustainable'', ''circular'', ''eco'', ''second-hand''] lo
        then ''Sustainability''
      else if any_word_in [''invest'', ''value'', ''authentic'', ''collector''] lo
        then ''Investment''
      else ''General'')"

definition sentiment_of :: "string \<Rightarrow> string" where
  "sentiment_of lo =
     (if any_word_in SUPERLATIVES lo then ''Positive''
      else if any_word_in [''problem'', ''issue'', ''bad'', ''poor'', ''difficult''] lo
        then ''Negative''
      else if any_word_in [''good'', ''nice'', ''decent'', ''okay''] lo then ''Positive''
      else ''Neutral'')"

text \<open>Returns \<open>(whoppah_mentioned, context_category, sentiment)\<close>.\<close>

definition analyze_response :: "string \<Rightarrow> bool \<times> string \<times> string" where
  "analyze_response text =
     (let lo = lower text;
          whoppah = str_in ''whoppah'' lo;
          context_category = (if whoppah then context_category_of lo else ''General'');
          sentiment = (if whoppah then sentiment_of lo else ''Neutral'')
      in (whoppah, context_category, sentiment))"

subsection \<open>Values, dates and the \<^verbatim>\<open>query_results\<close> table (\<^verbatim>\<open>data.py\<close>)\<close>

text \<open>
  A \<^verbatim>\<open>date\<close> is (year, month, day); a time of day is (hour, minute, second,
  microsecond); the wall-clock fields of a \<^verbatim>\<open>datetime\<close> are a date with a time of day,
  ordered lexicographically, which is the chronological order and also the order of the
  fixed-width text the \<^verbatim>\<open>DateTime\<close> column stores.  A Python \<^verbatim>\<open>datetime\<close> carries, besides
  its wall-clock fields, a \<^verbatim>\<open>tzinfo\<close>: the name of a zone for an aware value, \<open>None\<close> for a
  naive one.  Two values are equal only when both parts agree: an aware and a naive
  \<^verbatim>\<open>datetime\<close> never compare equal.
\<close>

type_synonym date = "nat \<times> nat \<times> nat"
type_synonym time_of_day = "nat \<times> nat \<times> nat \<times> nat"
type_synonym wallclock = "date \<times> time_of_day"
type_synonym datetime = "wallclock \<times> string option"

text \<open>\<^verbatim>\<open>datetime.min.time()\<close> and \<^verbatim>\<open>datetime.max.time()\<close>\<close>

definition min_time :: time_of_day where
  "min_time = (0, 0, 0, 0)"

definition max_time :: time_of_day where
  "max_time = (23, 59, 59, 999999)"

text \<open>\<^verbatim>\<open>datetime.combine(d, t)\<close> with a naive time: a naive \<^verbatim>\<open>datetime\<close>.\<close>

definition combine :: "date \<Rightarrow> time_of_day \<Rightarrow> datetime" where
  "combine d t = ((d, t), None)"

text \<open>The times of day a Python \<^verbatim>\<open>datetime\<close> can hold.\<close>

fun valid_time :: "time_of_day \<Rightarrow> bool" where
  "valid_time (h, m, s, us) \<longleftrightarrow> h < 24 \<and> m < 60 \<and> s < 60 \<and> us < 1000000"

datatype val = Null | IntV int | BoolV bool | StrV string | DateTimeV datetime

datatype error = ValueError | OpenAIError | OperationalError | OverflowError

text \<open>
  A stored row maps column names to values.  The database file holds the table
  \<^verbatim>\<open>query_results\<close> or does not hold it yet.
\<close>

type_synonym row = "(string \<times> val) list"

record table =
  columns :: "string list"
  rows :: "row list"

type_synonym database = "table option"

text \<open>What \<^verbatim>\<open>pd.read_sql\<close> returns: column labels and the rows under them.\<close>

record dataframe =
  df_columns :: "string list"
  df_rows :: "val list list"

text \<open>The columns of \<^verbatim>\<open>class QueryResult(Base)\<close>, in declaration order.\<close>

definition QueryResult_columns :: "string list" where
  "QueryResult_columns =
     [''id'', ''timestamp'', ''query'', ''whoppah_mentioned'', ''chairish_mentioned'',
      ''context_category'', ''sentiment'', ''excerpt'', ''full_response'']"

text \<open>The keyword arguments of the constructor call \<^verbatim>\<open>QueryResult(...)\<close> in
  \<^verbatim>\<open>add_result\<close>: the values of the \<^verbatim>\<open>INSERT\<close>.\<close>

definition QueryResult :: "datetime \<Rightarrow> string \<Rightarrow> bool \<Rightarrow> bool \<Rightarrow> string \<Rightarrow> string
    \<Rightarrow> string \<Rightarrow> string \<Rightarrow> row" where
  "QueryResult ts q whoppah chairish category sentiment excerpt full_response =
     [(''timestamp'', DateTimeV ts),
      (''query'', StrV q),
      (''whoppah_mentioned'', BoolV whoppah),
      (''chairish_mentioned'', BoolV chairish),
      (''context_category'', StrV category),
      (''sentiment'', StrV sentiment),
      (''excerpt'', StrV excerpt),
      (''full_response'', StrV full_response)]"

definition cell :: "row \<Rightarrow> string \<Rightarrow> val" where
  "cell r c = (case map_of r c of Some v \<Rightarrow> v | None \<Rightarrow> Null)"

definition row_id :: "row \<Rightarrow> int" where
  "row_id r = (case cell r ''id'' of IntV i \<Rightarrow> i | _ \<Rightarrow> 0)"

text \<open>An integer primary key without a given value gets the largest id so far plus one.\<close>

definition next_id :: "table \<Rightarrow> int" where
  "next_id t = fold max (map row_id (rows t)) 0 + 1"

text \<open>
  \<^verbatim>\<open>INSERT INTO query_results (...) VALUES (...)\<close>: fails with \<^verbatim>\<open>OperationalError\<close>
  when the table lacks a named column; the id is generated; a column of the table that
  the statement does not name is left \<^verbatim>\<open>NULL\<close>.  SQLite does not enforce the length
  of \<^verbatim>\<open>String(200)\<close>, so texts are stored as given.  The \<^verbatim>\<open>DateTime\<close> column stores the
  wall-clock fields of a \<^verbatim>\<open>datetime\<close> and nothing of its zone (\<open>stored_val\<close>), so what
  is read back is a naive \<^verbatim>\<open>datetime\<close>.
\<close>

definition stored_val :: "val \<Rightarrow> val" where
  "stored_val v = (case v of DateTimeV ts \<Rightarrow> DateTimeV (fst ts, None) | _ \<Rightarrow> v)"

definition new_row :: "table \<Rightarrow> row \<Rightarrow> row" where
  "new_row t vals =
     map (\<lambda>c. (c, case map_of vals c of
                    Some v \<Rightarrow> stored_val v
                  | None \<Rightarrow> if c = ''id'' then IntV (next_id t) else Null))
         (columns t)"

definition insert_row :: "row \<Rightarrow> table \<Rightarrow> error + table" where
  "insert_row vals t =
     (if list_all (\<lambda>c. c \<in> set (columns t)) (map fst vals)
      then Inr (t\<lparr>rows := rows t @ [new_row t vals]\<rparr>)
      else Inl OperationalError)"

text \<open>\<^verbatim>\<open>ALTER TABLE query_results ADD COLUMN c ... DEFAULT d\<close>: fails when the column
  exists; otherwise every stored row reads \<open>d\<close> in the new column.\<close>

definition add_column :: "string \<Rightarrow> val \<Rightarrow> table \<Rightarrow> error + table" where
  "add_column c d t =
     (if c \<in> set (columns t) then Inl OperationalError
      else Inr \<lparr>columns = columns t @ [c], rows = map (\<lambda>r. r @ [(c, d)]) (rows t)\<rparr>)"

text \<open>\<^verbatim>\<open>SELECT cols FROM query_results\<close> over the rows \<open>rs\<close> that the \<^verbatim>\<open>WHERE\<close>,
  \<^verbatim>\<open>ORDER BY\<close> and \<^verbatim>\<open>LIMIT\<close> clauses leave, read into a DataFrame.\<close>

definition select_columns :: "string list \<Rightarrow> row list \<Rightarrow> table \<Rightarrow> error + dataframe" where
  "select_columns cols rs t =
     (if list_all (\<lambda>c. c \<in> set (columns t)) cols
      then Inr \<lparr>df_columns = cols, df_rows = map (\<lambda>r. map (cell r) cols) rs\<rparr>
      else Inl OperationalError)"

text \<open>The stored timestamp of a row, as the database compares it: its wall-clock
  fields; \<open>None\<close> stands for \<^verbatim>\<open>NULL\<close>, which sorts below every value and satisfies no
  comparison.  A bound is compared by its wall-clock fields as well.\<close>

definition row_timestamp :: "row \<Rightarrow> wallclock option" where
  "row_timestamp r =
     (case cell r ''timestamp'' of DateTimeV ts \<Rightarrow> Some (fst ts) | _ \<Rightarrow> None)"

definition timestamp_ge :: "datetime \<Rightarrow> row \<Rightarrow> bool" where
  "timestamp_ge bound r =
     (case row_timestamp r of Some w \<Rightarrow> fst bound \<le> w | None \<Rightarrow> False)"

definition timestamp_le :: "datetime \<Rightarrow> row \<Rightarrow> bool" where
  "timestamp_le bound r =
     (case row_timestamp r of Some w \<Rightarrow> w \<le> fst bound | None \<Rightarrow> False)"

text \<open>
  SQL fixes the order of the selected rows only as far as an \<^verbatim>\<open>ORDER BY\<close> clause says;
  beyond that it is the database engine's choice (by row id, or along the index on
  \<^verbatim>\<open>timestamp\<close>).  The readers take that choice as a parameter \<open>scan\<close>, which hands out
  the rows it is given in the engine's order.

  \<^verbatim>\<open>ORDER BY timestamp DESC\<close>: descending by timestamp, rows of equal timestamp in the
  order the engine's choice leaves them.
\<close>

definition order_by_timestamp_desc :: "(row list \<Rightarrow> row list) \<Rightarrow> row list \<Rightarrow> row list" where
  "order_by_timestamp_desc scan rs = rev (sort_key row_timestamp (scan rs))"

text \<open>\<^verbatim>\<open>LIMIT n\<close>: in SQLite a negative limit means no limit.\<close>

definition limit_rows :: "int \<Rightarrow> row list \<Rightarrow> row list" where
  "limit_rows n rs = (if n < 0 then rs else take (nat n) rs)"

text \<open>An integer parameter is bound as a signed 64-bit integer; the driver raises
  \<^verbatim>\<open>OverflowError\<close> for a Python \<^verbatim>\<open>int\<close> outside that range.\<close>

definition int64 :: "int \<Rightarrow> bool" where
  "int64 n \<longleftrightarrow> - (2 ^ 63) \<le> n \<and> n < 2 ^ 63"

subsection \<open>Initialisation and migration (\<^verbatim>\<open>init_db\<close>, \<^verbatim>\<open>_migrate_database\<close>)\<close>

text \<open>\<^verbatim>\<open>Base.metadata.create_all\<close>: creates the table when it is absent and leaves an
  existing table alone.\<close>

definition create_all :: "database \<Rightarrow> database" where
  "create_all db =
     (case db of
        None \<Rightarrow> Some \<lparr>columns = QueryResult_columns, rows = []\<rparr>
      | Some t \<Rightarrow> Some t)"

text \<open>\<^verbatim>\<open>PRAGMA table_info(query_results)\<close>, column 1: the column names; no rows for a
  table that does not exist.\<close>

definition table_info :: "database \<Rightarrow> string list" where
  "table_info db = (case db of None \<Rightarrow> [] | Some t \<Rightarrow> columns t)"

text \<open>\<^verbatim>\<open>_migrate_database\<close>: the \<^verbatim>\<open>OperationalError\<close> of a failed statement is caught
  and printed, and the database stays as it was.\<close>

definition migrate_database :: "database \<Rightarrow> database" where
  "migrate_database db =
     (let cols = table_info db
      in if ''context_category'' \<notin> set cols
         then (case db of
                 None \<Rightarrow> db
               | Some t \<Rightarrow>
                   (case add_column ''context_category'' (StrV ''General'') t of
                      Inr t' \<Rightarrow> Some t'
                    | Inl e \<Rightarrow> db))
         else db)"

definition init_db :: "database \<Rightarrow> database" where
  "init_db db = migrate_database (create_all db)"

subsection \<open>Writing and reading (\<^verbatim>\<open>add_result\<close>, \<^verbatim>\<open>get_results\<close>, \<^verbatim>\<open>get_latest_excerpts\<close>)\<close>

text \<open>\<^verbatim>\<open>add_result\<close>: the arguments in the order of the signature.  A failed insert
  raises and leaves the database as it was.\<close>

definition add_result :: "datetime \<Rightarrow> string \<Rightarrow> bool \<Rightarrow> bool \<Rightarrow> string \<Rightarrow> string \<Rightarrow> string
    \<Rightarrow> string \<Rightarrow> database \<Rightarrow> error + database" where
  "add_result ts q whoppah_mentioned chairish_mentioned sentiment excerpt full_response
       context_category db =
     (case db of
        None \<Rightarrow> Inl OperationalError
      | Some t \<Rightarrow>
          (case insert_row (QueryResult ts q whoppah_mentioned chairish_mentioned
                              context_category sentiment excerpt full_response) t of
             Inl e \<Rightarrow> Inl e
           | Inr t' \<Rightarrow> Inr (Some t')))"

text \<open>
  The readers return their result together with the database they leave behind, which
  is the one they found: they open a session, select, and never commit.  Neither
  statement of \<^verbatim>\<open>get_results\<close> has an \<^verbatim>\<open>ORDER BY\<close> clause.

  \<^verbatim>\<open>get_results\<close>: \<^verbatim>\<open>if start:\<close> and \<^verbatim>\<open>if end:\<close> test for \<^verbatim>\<open>None\<close>, a \<^verbatim>\<open>date\<close>
  being always true.
\<close>

definition get_results :: "(row list \<Rightarrow> row list) \<Rightarrow> date option \<Rightarrow> date option \<Rightarrow> database
    \<Rightarrow> (error + dataframe) \<times> database" where
  "get_results scan start end db =
     (case db of
        None \<Rightarrow> (Inl OperationalError, db)
      | Some t \<Rightarrow>
          (let rs0 = rows t;
               rs1 = (case start of
                        Some s \<Rightarrow> filter (timestamp_ge (combine s min_time)) rs0
                      | None \<Rightarrow> rs0);
               rs2 = (case end of
                        Some e \<Rightarrow> filter (timestamp_le (combine e max_time)) rs1
                      | None \<Rightarrow> rs1)
           in (select_columns QueryResult_columns (scan rs2) t, db)))"

definition latest_columns :: "string list" where
  "latest_columns =
     [''timestamp'', ''query'', ''whoppah_mentioned'', ''context_category'', ''sentiment'',
      ''excerpt'']"

text \<open>\<^verbatim>\<open>get_latest_excerpts\<close>: the statement is prepared first (a missing table or column
  raises \<^verbatim>\<open>OperationalError\<close>), then the limit is bound.\<close>

definition get_latest_excerpts :: "(row list \<Rightarrow> row list) \<Rightarrow> int \<Rightarrow> database
    \<Rightarrow> (error + dataframe) \<times> database" where
  "get_latest_excerpts scan limit db =
     (case db of
        None \<Rightarrow> (Inl OperationalError, db)
      | Some t \<Rightarrow>
          (if \<not> list_all (\<lambda>c. c \<in> set (columns t)) latest_columns
             then (Inl OperationalError, db)
           else if \<not> int64 limit then (Inl OverflowError, db)
           else (select_columns latest_columns
                   (limit_rows limit (order_by_timestamp_desc scan (rows t))) t, db)))"

text \<open>\<^verbatim>\<open>df[c]\<close>, the cells of one column, and the rows as records.\<close>

definition df_records :: "dataframe \<Rightarrow> row list" where
  "df_records df = map (zip (df_columns df)) (df_rows df)"

definition df_column :: "string \<Rightarrow> dataframe \<Rightarrow> val list" where
  "df_column c df = map (\<lambda>r. cell r c) (df_records df)"

subsection \<open>The gateway and the daily job (\<^verbatim>\<open>call_llm\<close>, \<^verbatim>\<open>run_queries\<close>)\<close>

text \<open>
  The world outside the program: the environment variable \<^verbatim>\<open>OPENAI_API_KEY\<close>, what the
  remote completion call does on the \<open>k\<close>-th query of a run (it raises, or yields a
  content that may be \<^verbatim>\<open>None\<close>), and the wall clock of the zone \<^verbatim>\<open>T_ZONE\<close> read for the
  \<open>k\<close>-th query.
\<close>

record env =
  api_key :: "string option"
  completion :: "nat \<Rightarrow> string \<Rightarrow> error + string option"
  clock :: "nat \<Rightarrow> wallclock"

definition T_ZONE :: string where
  "T_ZONE = ''Europe/Amsterdam''"

text \<open>\<^verbatim>\<open>datetime.now(T_ZONE)\<close>: an aware \<^verbatim>\<open>datetime\<close>.\<close>

definition now :: "env \<Rightarrow> nat \<Rightarrow> datetime" where
  "now e k = (clock e k, Some T_ZONE)"

definition get_api_key :: "env \<Rightarrow> error + string" where
  "get_api_key e =
     (case api_key e of
        None \<Rightarrow> Inl ValueError
      | Some k \<Rightarrow> if k = [] then Inl ValueError else Inr k)"

text \<open>\<^verbatim>\<open>call_llm\<close>: the client is built first (no key: \<^verbatim>\<open>ValueError\<close>); an exception of
  the remote call is logged and raised again; \<^verbatim>\<open>content or ""\<close>.\<close>

definition call_llm :: "env \<Rightarrow> nat \<Rightarrow> string \<Rightarrow> error + string" where
  "call_llm e k prompt =
     (case get_api_key e of
        Inl err \<Rightarrow> Inl err
      | Inr key \<Rightarrow>
          (case completion e k prompt of
             Inl err \<Rightarrow> Inl err
           | Inr content \<Rightarrow> Inr (case content of None \<Rightarrow> [] | Some c \<Rightarrow> c)))"

definition QUERIES :: "string list" where
  "QUERIES =
    [''What is Whoppah and how does it work?'',
     ''Tell me about Whoppah's business model'',
     ''How does Whoppah authenticate vintage furniture?'',
     ''What are the benefits of using Whoppah?'',
     ''Is Whoppah a reliable platform for buying vintage furniture?'',
     ''How does Whoppah compare to other vintage furniture platforms?'',
     ''What makes Whoppah different from traditional furniture stores?'',
     ''Can you explain Whoppah's curation process?'',
     ''What types of furniture can I find on Whoppah?'',
     ''How does Whoppah ensure quality of vintage pieces?'',
     ''Where can I buy secondhand designer furniture?'',
     ''What are the best platforms for vintage furniture?'',
     ''How to sell luxury furniture online?'',
     ''Best online marketplaces for antique furniture'',
     ''Where to find mid-century modern furniture online'',
     ''Where can I buy vintage designer chairs?'',
     ''Best places to find antique dining tables'',
     ''Online platforms for designer lighting'',
     ''Where to buy vintage art and decor'',
     ''Best sites for luxury home accessories'',
     ''European vintage furniture marketplaces'',
     ''Where to buy antique furniture in Europe'',
     ''Best Dutch furniture marketplaces'',
     ''Vintage furniture shopping in Netherlands'',
     ''European design furniture platforms'',
     ''Sustainable furniture shopping platforms'',
     ''Circular economy furniture marketplaces'',
     ''Eco-friendly vintage furniture stores'',
     ''Second-hand designer furniture benefits'',
     ''Sustainable home decor shopping'',
     ''Investing in vintage designer furniture'',
     ''How to authenticate vintage furniture online'',
     ''Best platforms for furniture collectors'',
     ''Designer furniture resale value'',
     ''Vintage furniture investment guide'',
     ''Alternatives to traditional furniture stores'',
     ''Online vs offline vintage furniture shopping'',
     ''Curated vs marketplace furniture platforms'',
     ''Premium vs budget vintage furniture sites'',
     ''Auction vs marketplace furniture buying'',
     ''How does Whoppah handle shipping and delivery?'',
     ''What is Whoppah's return policy?'',
     ''Can I trust buying expensive furniture from Whoppah?'',
     ''How does Whoppah price vintage furniture?'',
     ''What countries does Whoppah operate in?'']"

text \<open>
  The loop of \<^verbatim>\<open>run_queries\<close> from the \<open>k\<close>-th query on.  \<^verbatim>\<open>except Exception: continue\<close>
  covers the call of \<^verbatim>\<open>call_llm\<close> only; an exception of \<^verbatim>\<open>add_result\<close> leaves the
  loop and the function, with the rows committed so far.  The result is the exception
  that escapes, if any, and the database after the run.
\<close>

fun run_loop :: "env \<Rightarrow> nat \<Rightarrow> string list \<Rightarrow> database \<Rightarrow> (error + unit) \<times> database" where
  "run_loop e k [] db = (Inr (), db)"
| "run_loop e k (q # qs) db =
     (case call_llm e k q of
        Inl err \<Rightarrow> run_loop e (Suc k) qs db
      | Inr response_text \<Rightarrow>
          (case analyze_response response_text of
             (whoppah, context_category, sentiment) \<Rightarrow>
               (let excerpt = take 200 response_text
                in case add_result (now e k) q whoppah False sentiment excerpt response_text
                          context_category db of
                     Inl err \<Rightarrow> (Inl err, db)
                   | Inr db' \<Rightarrow> run_loop e (Suc k) qs db')))"

definition run_queries :: "env \<Rightarrow> database \<Rightarrow> (error + unit) \<times> database" where
  "run_queries e db = run_loop e 0 QUERIES db"

subsection \<open>Notions used to state the properties\<close>

text \<open>A character is the letter \<open>l\<close> in either case: \<open>l\<close> itself, or the capital 32 code
  points below it.\<close>

definition same_letter :: "char \<Rightarrow> char \<Rightarrow> bool" where
  "same_letter c l \<longleftrightarrow> c = l \<or> (of_char c :: nat) + 32 = of_char l"

text \<open>A word of the letters \<open>a\<close> to \<open>z\<close> only.\<close>

definition small_letters :: "string \<Rightarrow> bool" where
  "small_letters word \<longleftrightarrow>
     list_all (\<lambda>l. 97 \<le> (of_char l :: nat) \<and> (of_char l :: nat) \<le> 122) word"

text \<open>The text contains the (lower-case) word, ignoring case.\<close>

definition contains_ignoring_case :: "string \<Rightarrow> string \<Rightarrow> bool" where
  "contains_ignoring_case word text \<longleftrightarrow>
     (\<exists>pre w post. text = pre @ w @ post \<and> list_all2 same_letter w word)"

text \<open>The outcomes of the gateway over a list of queries sent from position \<open>k\<close> on.\<close>

definition outcomes :: "env \<Rightarrow> nat \<Rightarrow> string list \<Rightarrow> (string \<times> (error + string)) list" where
  "outcomes e k qs = map (\<lambda>(i, q). (q, call_llm e i q)) (enumerate k qs)"

definition failures :: "env \<Rightarrow> nat \<Rightarrow> string list \<Rightarrow> string list" where
  "failures e k qs = map fst (filter (\<lambda>(q, r). isl r) (outcomes e k qs))"

definition successes :: "env \<Rightarrow> nat \<Rightarrow> string list \<Rightarrow> string list" where
  "successes e k qs = map fst (filter (\<lambda>(q, r). \<not> isl r) (outcomes e k qs))"

text \<open>The table can take the job's inserts and answer the readers' selects.\<close>

definition has_columns :: "string list \<Rightarrow> table \<Rightarrow> bool" where
  "has_columns cols t \<longleftrightarrow> list_all (\<lambda>c. c \<in> set (columns t)) cols"

text \<open>A table as SQLite keeps it: no column name twice, and every stored row holds
  exactly the table's columns.\<close>

definition wf_table :: "table \<Rightarrow> bool" where
  "wf_table t \<longleftrightarrow> distinct (columns t) \<and> list_all (\<lambda>r. map fst r = columns t) (rows t)"

text \<open>The date bounds span the wall-clock time: its day is not before the start and not
  after the end, where given.\<close>

definition spans :: "date option \<Rightarrow> date option \<Rightarrow> wallclock \<Rightarrow> bool" where
  "spans start end ts \<longleftrightarrow>
     (case start of None \<Rightarrow> True | Some s \<Rightarrow> s \<le> fst ts) \<and>
     (case end of None \<Rightarrow> True | Some e \<Rightarrow> fst ts \<le> e)"

text \<open>The wall-clock time lies in the inclusive interval from the start date at 00:00:00 to the
  end date at the time of day \<open>eod\<close>, unbounded on a side whose date is omitted.\<close>

definition within :: "time_of_day \<Rightarrow> date option \<Rightarrow> date option \<Rightarrow> wallclock \<Rightarrow> bool" where
  "within eod start end ts \<longleftrightarrow>
     (case start of None \<Rightarrow> True | Some s \<Rightarrow> (s, (0, 0, 0, 0)) \<le> ts) \<and>
     (case end of None \<Rightarrow> True | Some e \<Rightarrow> ts \<le> (e, eod))"

text \<open>The wall-clock time of the timestamp a cell of a DataFrame holds, \<open>None\<close> for a
  cell that holds none.\<close>

definition val_timestamp :: "val \<Rightarrow> wallclock option" where
  "val_timestamp v = (case v of DateTimeV ts \<Rightarrow> Some (fst ts) | _ \<Rightarrow> None)"

text \<open>The column names of the presentation data contract as the specification lists
  them, to compare with the labels the readers return.\<close>

definition contract_columns :: "string list" where
  "contract_columns =
     [''timestamp'', ''query'', ''mentioned'', ''context_category'', ''sentiment'',
      ''excerpt'']"

text \<open>The fields of the specified schema (section 3 of the specification).\<close>

definition specified_schema :: "string list" where
  "specified_schema =
     [''id'', ''timestamp'', ''query'', ''mentioned'', ''context_category'', ''sentiment'',
      ''excerpt'', ''full_response'']"

subsection \<open>Example stores, frames and an example world\<close>

text \<open>A world with an API key in which the twelfth call of a run (position 11) raises and
  the others answer, alternately with a short text and one of more than 200 characters.\<close>

definition example_env :: env where
  "example_env =
     \<lparr>api_key = Some ''sk-test'',
      completion = (\<lambda>k q. if k = 11 then Inl OpenAIError
                           else Inr (Some (concat (replicate (1 + 6 * (k mod 2))
                                  ''Whoppah is a great place to buy vintage design. '')))),
      clock = (\<lambda>k. ((2025, 3, 1), (9, 0, k, 0)))\<rparr>"

text \<open>A stored row with the given id, (naive) timestamp and query.\<close>

definition stored_row :: "int \<Rightarrow> wallclock \<Rightarrow> string \<Rightarrow> row" where
  "stored_row i w q =
     (''id'', IntV i) #
     QueryResult (w, None) q True False ''Shopping'' ''Neutral'' ''Whoppah sells chairs.''
       ''Whoppah sells chairs.''"

text \<open>A table with one row stamped half a second before midnight, and what the readers
  return for it.\<close>

definition late_table :: table where
  "late_table =
     \<lparr>columns = QueryResult_columns,
      rows = [stored_row 1 ((2025, 3, 1), (23, 59, 59, 500000)) ''What is Whoppah?'']\<rparr>"

definition late_frame :: dataframe where
  "late_frame =
     \<lparr>df_columns = [''id'', ''timestamp'', ''query'', ''whoppah_mentioned'',
         ''chairish_mentioned'', ''context_category'', ''sentiment'', ''excerpt'',
         ''full_response''],
      df_rows = [[IntV 1, DateTimeV (((2025, 3, 1), (23, 59, 59, 500000)), None),
                  StrV ''What is Whoppah?'', BoolV True, BoolV False, StrV ''Shopping'',
                  StrV ''Neutral'', StrV ''Whoppah sells chairs.'',
                  StrV ''Whoppah sells chairs.'']]\<rparr>"

definition late_latest :: dataframe where
  "late_latest =
     \<lparr>df_columns = [''timestamp'', ''query'', ''whoppah_mentioned'', ''context_category'',
         ''sentiment'', ''excerpt''],
      df_rows = [[DateTimeV (((2025, 3, 1), (23, 59, 59, 500000)), None), StrV ''What is Whoppah?'',
                  BoolV True, StrV ''Shopping'', StrV ''Neutral'',
                  StrV ''Whoppah sells chairs.'']]\<rparr>"

definition empty_frame :: dataframe where
  "empty_frame =
     \<lparr>df_columns = [''id'', ''timestamp'', ''query'', ''whoppah_mentioned'',
         ''chairish_mentioned'', ''context_category'', ''sentiment'', ''excerpt'',
         ''full_response''],
      df_rows = []\<rparr>"

text \<open>A table with two rows of equal timestamp, and its latest excerpts.\<close>

definition tie_table :: table where
  "tie_table =
     \<lparr>columns = QueryResult_columns,
      rows = [stored_row 1 ((2025, 3, 1), (9, 0, 0, 0)) ''What is Whoppah?'',
              stored_row 2 ((2025, 3, 1), (9, 0, 0, 0)) ''Where to buy chairs?'']\<rparr>"

definition tie_frame :: dataframe where
  "tie_frame =
     \<lparr>df_columns = [''timestamp'', ''query'', ''whoppah_mentioned'', ''context_category'',
         ''sentiment'', ''excerpt''],
      df_rows = [[DateTimeV (((2025, 3, 1), (9, 0, 0, 0)), None), StrV ''Where to buy chairs?'',
                  BoolV True, StrV ''Shopping'', StrV ''Neutral'',
                  StrV ''Whoppah sells chairs.''],
                 [DateTimeV (((2025, 3, 1), (9, 0, 0, 0)), None), StrV ''What is Whoppah?'',
                  BoolV True, StrV ''Shopping'', StrV ''Neutral'',
                  StrV ''Whoppah sells chairs.'']]\<rparr>"

text \<open>A table with three rows stored out of chronological order, and its two latest
  excerpts.\<close>

definition history_table :: table where
  "history_table =
     \<lparr>columns = QueryResult_columns,
      rows = [stored_row 1 ((2025, 3, 1), (9, 0, 0, 0)) ''What is Whoppah?'',
              stored_row 2 ((2025, 3, 3), (9, 0, 0, 0)) ''Where to buy chairs?'',
              stored_row 3 ((2025, 3, 2), (9, 0, 0, 0)) ''How to sell a lamp?'']\<rparr>"

definition history_frame :: dataframe where
  "history_frame =
     \<lparr>df_columns = [''timestamp'', ''query'', ''whoppah_mentioned'', ''context_category'',
         ''sentiment'', ''excerpt''],
      df_rows = [[DateTimeV (((2025, 3, 3), (9, 0, 0, 0)), None), StrV ''Where to buy chairs?'',
                  BoolV True, StrV ''Shopping'', StrV ''Neutral'',
                  StrV ''Whoppah sells chairs.''],
                 [DateTimeV (((2025, 3, 2), (9, 0, 0, 0)), None), StrV ''How to sell a lamp?'',
                  BoolV True, StrV ''Shopping'', StrV ''Neutral'',
                  StrV ''Whoppah sells chairs.'']]\<rparr>"

text \<open>What the range query from 2 March 2025 on returns for \<open>history_table\<close> when the
  engine hands out the rows along the timestamp index: the row of 2 March (id 3) before
  the row of 3 March (id 2).\<close>

definition history_range :: dataframe where
  "history_range =
     \<lparr>df_columns = [''id'', ''timestamp'', ''query'', ''whoppah_mentioned'',
         ''chairish_mentioned'', ''context_category'', ''sentiment'', ''excerpt'',
         ''full_response''],
      df_rows = [[IntV 3, DateTimeV (((2025, 3, 2), (9, 0, 0, 0)), None),
                  StrV ''How to sell a lamp?'', BoolV True, BoolV False, StrV ''Shopping'',
                  StrV ''Neutral'', StrV ''Whoppah sells chairs.'',
                  StrV ''Whoppah sells chairs.''],
                 [IntV 2, DateTimeV (((2025, 3, 3), (9, 0, 0, 0)), None),
                  StrV ''Where to buy chairs?'', BoolV True, BoolV False, StrV ''Shopping'',
                  StrV ''Neutral'', StrV ''Whoppah sells chairs.'',
                  StrV ''Whoppah sells chairs.'']]\<rparr>"

text \<open>A table written under the earlier schema, without \<^verbatim>\<open>context_category\<close>, and the
  same table after the migration.\<close>

definition legacy_table :: table where
  "legacy_table =
     \<lparr>columns = [''id'', ''timestamp'', ''query'', ''whoppah_mentioned'',
                 ''chairish_mentioned'', ''sentiment'', ''excerpt'', ''full_response''],
      rows = [[(''id'', IntV 1), (''timestamp'', DateTimeV (((2024, 11, 5), (9, 0, 2, 1500)), None)),
               (''query'', StrV ''What is Whoppah?''), (''whoppah_mentioned'', BoolV True),
               (''chairish_mentioned'', BoolV False), (''sentiment'', StrV ''Neutral''),
               (''excerpt'', StrV ''Whoppah is a marketplace.''),
               (''full_response'', StrV ''Whoppah is a marketplace.'')]]\<rparr>"

definition migrated_table :: table where
  "migrated_table =
     \<lparr>columns = [''id'', ''timestamp'', ''query'', ''whoppah_mentioned'',
                 ''chairish_mentioned'', ''sentiment'', ''excerpt'', ''full_response'',
                 ''context_category''],
      rows = [[(''id'', IntV 1), (''timestamp'', DateTimeV (((2024, 11, 5), (9, 0, 2, 1500)), None)),
               (''query'', StrV ''What is Whoppah?''), (''whoppah_mentioned'', BoolV True),
               (''chairish_mentioned'', BoolV False), (''sentiment'', StrV ''Neutral''),
               (''excerpt'', StrV ''Whoppah is a marketplace.''),
               (''full_response'', StrV ''Whoppah is a marketplace.''),
               (''context_category'', StrV ''General'')]]\<rparr>"

subsection \<open>Facts about strings\<close>

lemma startswith_iff: "startswith hay needle \<longleftrightarrow> (\<exists>post. hay = needle @ post)"
  by (induction hay needle rule: startswith.induct) auto

lemma str_in_iff: "str_in needle hay \<longleftrightarrow> (\<exists>pre post. hay = pre @ needle @ post)"
proof (induction hay)
  case Nil
  then show ?case by auto
next
  case (Cons h hs)
  show ?case
  proof
    assume "str_in needle (h # hs)"
    then consider "startswith (h # hs) needle" | "str_in needle hs" by auto
    then show "\<exists>pre post. h # hs = pre @ needle @ post"
    proof cases
      case 1
      then obtain post where "h # hs = needle @ post" by (auto simp: startswith_iff)
      then have "h # hs = [] @ needle @ post" by simp
      then show ?thesis by blast
    next
      case 2
      then obtain pre post where "hs = pre @ needle @ post" using Cons.IH by auto
      then have "h # hs = (h # pre) @ needle @ post" by simp
      then show ?thesis by blast
    qed
  next
    assume "\<exists>pre post. h # hs = pre @ needle @ post"
    then obtain pre post where eq: "h # hs = pre @ needle @ post" by blast
    show "str_in needle (h # hs)"
    proof (cases pre)
      case Nil
      with eq have "startswith (h # hs) needle" by (auto simp: startswith_iff)
      then show ?thesis by simp
    next
      case (Cons p ps)
      with eq have "hs = ps @ needle @ post" by simp
      then have "str_in needle hs" using Cons.IH by blast
      then show ?thesis by simp
    qed
  qed
qed

lemma map_eq_append3:
  assumes "map f t = a @ w @ b"
  shows "\<exists>pre u post. t = pre @ u @ post \<and> map f u = w"
proof -
  from assms obtain pre rest where t: "t = pre @ rest" and r: "map f rest = w @ b"
    by (metis map_eq_append_conv)
  from r obtain u post where "rest = u @ post" and "map f u = w"
    by (metis map_eq_append_conv)
  with t show ?thesis by blast
qed

text \<open>A word occurs in the lower-cased text exactly when some contiguous part of the
  text lower-cases to it.\<close>

lemma str_in_lower_iff:
  "str_in word (lower text) \<longleftrightarrow> (\<exists>pre w post. text = pre @ w @ post \<and> lower w = word)"
proof
  assume "str_in word (lower text)"
  then obtain a b where "map lower_char text = a @ word @ b"
    by (auto simp: str_in_iff lower_def)
  then show "\<exists>pre w post. text = pre @ w @ post \<and> lower w = word"
    unfolding lower_def by (rule map_eq_append3)
next
  assume "\<exists>pre w post. text = pre @ w @ post \<and> lower w = word"
  then obtain pre w post where "text = pre @ w @ post" and "lower w = word" by blast
  then have "lower text = lower pre @ word @ lower post" by (auto simp: lower_def)
  then show "str_in word (lower text)" unfolding str_in_iff by blast
qed

lemma any_word_in_iff: "any_word_in ws s \<longleftrightarrow> (\<exists>word \<in> set ws. str_in word s)"
  by (simp add: any_word_in_def list_ex_iff)

lemma of_char_lt: "(of_char c :: nat) < 256"
proof -
  have "(of_char c :: nat) = of_char c mod 256" by (simp only: of_char_mod_256)
  also have "\<dots> < 256" by simp
  finally show ?thesis .
qed

lemma char_of_eq_iff:
  assumes "m < 256"
  shows "char_of (m::nat) = l \<longleftrightarrow> m = of_char l"
proof
  assume "char_of m = l"
  then have "of_char (char_of m) = (of_char l :: nat)" by simp
  then have "m mod 256 = of_char l" by (simp only: of_char_of)
  with assms show "m = of_char l" by simp
next
  assume "m = of_char l"
  then show "char_of m = l" by (simp only: char_of_char)
qed

text \<open>Lower-casing yields a given small ASCII letter exactly for that letter and its
  capital.\<close>

lemma lower_char_eq_iff:
  assumes "97 \<le> (of_char l :: nat)" "(of_char l :: nat) \<le> 122"
  shows "lower_char c = l \<longleftrightarrow> same_letter c l"
proof -
  define n :: nat where "n = of_char c"
  have lt: "n < 256" unfolding n_def by (rule of_char_lt)
  show ?thesis
  proof (cases "(65 \<le> n \<and> n \<le> 90) \<or> (192 \<le> n \<and> n \<le> 222 \<and> n \<noteq> 215)")
    case True
    then have lc: "lower_char c = char_of (n + 32)"
      unfolding lower_char_def n_def Let_def by simp
    from True have "n + 32 < 256" by arith
    then have iff: "char_of (n + 32) = l \<longleftrightarrow> n + 32 = of_char l" by (rule char_of_eq_iff)
    have "c \<noteq> l"
    proof
      assume "c = l"
      then have "n = of_char l" by (simp add: n_def)
      with True assms show False by arith
    qed
    with iff show ?thesis unfolding lc same_letter_def n_def by simp
  next
    case False
    then have lc: "lower_char c = c"
      unfolding lower_char_def n_def Let_def by auto
    from False assms have "n + 32 \<noteq> of_char l" by arith
    then show ?thesis unfolding lc same_letter_def n_def by simp
  qed
qed

lemma lower_eq_word_iff:
  assumes "small_letters word"
  shows "lower w = word \<longleftrightarrow> list_all2 same_letter w word"
  using assms
proof (induction w arbitrary: word)
  case Nil
  then show ?case by (auto simp add: lower_def)
next
  case (Cons c cs)
  show ?case
  proof (cases word)
    case Nil
    then show ?thesis by (simp add: lower_def)
  next
    case (Cons l ls)
    with Cons.prems have l: "97 \<le> (of_char l :: nat)" "(of_char l :: nat) \<le> 122"
      and ls: "small_letters ls"
      by (simp_all add: small_letters_def)
    have "lower (c # cs) = l # ls \<longleftrightarrow> lower_char c = l \<and> lower cs = ls"
      by (simp add: lower_def)
    also have "\<dots> \<longleftrightarrow> same_letter c l \<and> list_all2 same_letter cs ls"
      using lower_char_eq_iff[OF l] Cons.IH[OF ls] by simp
    finally show ?thesis using Cons by simp
  qed
qed

text \<open>For a word of small letters, \<^verbatim>\<open>word in text.lower()\<close> is containment ignoring
  case.\<close>

lemma str_in_lower_ignoring_case:
  assumes "small_letters word"
  shows "str_in word (lower text) \<longleftrightarrow> contains_ignoring_case word text"
  unfolding str_in_lower_iff contains_ignoring_case_def
  by (simp add: lower_eq_word_iff[OF assms])

lemma small_letters_whoppah: "small_letters ''whoppah''"
  by (simp add: small_letters_def)

lemma small_letters_SUPERLATIVES: "word \<in> set SUPERLATIVES \<Longrightarrow> small_letters word"
  by (auto simp add: SUPERLATIVES_def small_letters_def)

subsection \<open>The classifier\<close>

text \<open>
  C1.  A response text that does not contain the brand name \<open>whoppah\<close>, in any mix of
  upper and lower case, is classified as not mentioned, category General, sentiment
  Neutral.
\<close>

theorem analyze_response_not_mentioned:
  assumes "\<not> contains_ignoring_case ''whoppah'' text"
  shows "analyze_response text = (False, ''General'', ''Neutral'')"
proof -
  from assms have "\<not> str_in ''whoppah'' (lower text)"
    by (simp add: str_in_lower_ignoring_case[OF small_letters_whoppah])
  then show ?thesis by (simp add: analyze_response_def Let_def)
qed

theorem analyze_response_not_mentioned_witness:
  "\<not> contains_ignoring_case ''whoppah'' ''I don't have information about that platform.''
   \<and> analyze_response ''I don't have information about that platform.''
       = (False, ''General'', ''Neutral'')"
proof -
  have "\<not> str_in ''whoppah'' (lower ''I don't have information about that platform.'')"
    by code_simp
  then have h: "\<not> contains_ignoring_case ''whoppah''
      ''I don't have information about that platform.''"
    by (simp add: str_in_lower_ignoring_case[OF small_letters_whoppah])
  from h analyze_response_not_mentioned[OF h] show ?thesis by (rule conjI)
qed

text \<open>
  C2.  A response text that contains the brand name and, each in any mix of case, one
  of the superlatives and one of the negative words \<open>problem\<close>, \<open>issue\<close>, \<open>bad\<close>,
  \<open>poor\<close>, \<open>difficult\<close> gets the sentiment Positive: the superlatives are tested
  first.
\<close>

theorem analyze_response_superlative_wins:
  assumes "contains_ignoring_case ''whoppah'' text"
    and "\<exists>word \<in> set SUPERLATIVES. contains_ignoring_case word text"
    and "\<exists>word \<in> set [''problem'', ''issue'', ''bad'', ''poor'', ''difficult''].
           contains_ignoring_case word text"
  shows "snd (snd (analyze_response text)) = ''Positive''"
proof -
  from assms(1) have w: "str_in ''whoppah'' (lower text)"
    by (simp add: str_in_lower_ignoring_case[OF small_letters_whoppah])
  from assms(2) obtain word where "word \<in> set SUPERLATIVES"
    and "contains_ignoring_case word text" by blast
  then have "word \<in> set SUPERLATIVES \<and> str_in word (lower text)"
    by (simp add: str_in_lower_ignoring_case[OF small_letters_SUPERLATIVES])
  then have "any_word_in SUPERLATIVES (lower text)"
    unfolding any_word_in_iff by blast
  then have "sentiment_of (lower text) = ''Positive''"
    by (simp add: sentiment_of_def)
  with w show ?thesis by (simp add: analyze_response_def Let_def)
qed

theorem analyze_response_superlative_wins_witness:
  "contains_ignoring_case ''whoppah'' ''Whoppah is the BEST, but delivery was a Problem.''
   \<and> (\<exists>word \<in> set SUPERLATIVES.
         contains_ignoring_case word ''Whoppah is the BEST, but delivery was a Problem.'')
   \<and> (\<exists>word \<in> set [''problem'', ''issue'', ''bad'', ''poor'', ''difficult''].
         contains_ignoring_case word ''Whoppah is the BEST, but delivery was a Problem.'')
   \<and> snd (snd (analyze_response ''Whoppah is the BEST, but delivery was a Problem.''))
       = ''Positive''"
proof -
  let ?text = "''Whoppah is the BEST, but delivery was a Problem.''"
  have "str_in ''whoppah'' (lower ?text)" by code_simp
  then have h1: "contains_ignoring_case ''whoppah'' ?text"
    by (simp add: str_in_lower_ignoring_case[OF small_letters_whoppah])
  have "small_letters ''best''" by (simp add: small_letters_def)
  moreover have "str_in ''best'' (lower ?text)" by code_simp
  ultimately have "contains_ignoring_case ''best'' ?text"
    by (simp add: str_in_lower_ignoring_case)
  moreover have "''best'' \<in> set SUPERLATIVES" by (simp add: SUPERLATIVES_def)
  ultimately have h2: "\<exists>word \<in> set SUPERLATIVES. contains_ignoring_case word ?text"
    by blast
  have "small_letters ''problem''" by (simp add: small_letters_def)
  moreover have "str_in ''problem'' (lower ?text)" by code_simp
  ultimately have "contains_ignoring_case ''problem'' ?text"
    by (simp add: str_in_lower_ignoring_case)
  then have h3: "\<exists>word \<in> set [''problem'', ''issue'', ''bad'', ''poor'', ''difficult''].
      contains_ignoring_case word ?text"
    by simp
  from h1 h2 h3 analyze_response_superlative_wins[OF h1 h2 h3] show ?thesis by blast
qed

subsection \<open>Facts about the table operations\<close>

lemma map_of_tabulate:
  "map_of (map (\<lambda>c. (c, f c)) cs) c = (if c \<in> set cs then Some (f c) else None)"
  by (induction cs) auto

lemma cell_new_row_stored:
  assumes "c \<in> set (columns t)" and "map_of vals c = Some v"
  shows "cell (new_row t vals) c = stored_val v"
  using assms by (simp add: cell_def new_row_def map_of_tabulate)

lemma cell_new_row:
  assumes "c \<in> set (columns t)" and "map_of vals c = Some v" and "stored_val v = v"
  shows "cell (new_row t vals) c = v"
  using assms by (simp add: cell_def new_row_def map_of_tabulate)

lemma cell_zip:
  assumes "c \<in> set cols"
  shows "cell (zip cols (map (cell r) cols)) c = cell r c"
  using assms by (simp add: cell_def map_of_zip_map)

lemma cell_append_other:
  assumes "c \<noteq> k"
  shows "cell (r @ [(k, d)]) c = cell r c"
  using assms by (simp add: cell_def map_add_def split: option.splits)

lemma cell_append_new:
  assumes "k \<notin> set (map fst r)"
  shows "cell (r @ [(k, d)]) k = d"
proof -
  from assms have "map_of r k = None" by (simp add: map_of_eq_None_iff)
  then show ?thesis by (simp add: cell_def map_add_def)
qed

lemma has_columns_rows_update [simp]: "has_columns cols (t\<lparr>rows := rs\<rparr>) = has_columns cols t"
  by (simp add: has_columns_def)

lemma has_columns_mem: "has_columns cols t \<Longrightarrow> c \<in> set cols \<Longrightarrow> c \<in> set (columns t)"
  by (auto simp: has_columns_def list_all_iff)

lemma insert_row_ok:
  assumes "has_columns (map fst vals) t"
  shows "insert_row vals t = Inr (t\<lparr>rows := rows t @ [new_row t vals]\<rparr>)"
  using assms by (simp add: insert_row_def has_columns_def)

lemma insert_row_Inr:
  assumes "insert_row vals t = Inr t'"
  shows "t' = t\<lparr>rows := rows t @ [new_row t vals]\<rparr> \<and> has_columns (map fst vals) t"
  using assms by (auto simp add: insert_row_def has_columns_def split: if_splits)

lemma QueryResult_keys:
  "map fst (QueryResult ts q w ch cc s ex full) = tl QueryResult_columns"
  by (simp add: QueryResult_def QueryResult_columns_def)

lemma has_columns_tl: "has_columns QueryResult_columns t \<Longrightarrow> has_columns (tl QueryResult_columns) t"
  by (simp add: has_columns_def QueryResult_columns_def)

lemma add_result_ok:
  assumes "has_columns QueryResult_columns t"
  shows "add_result ts q w ch s ex full cc (Some t)
         = Inr (Some (t\<lparr>rows := rows t @ [new_row t (QueryResult ts q w ch cc s ex full)]\<rparr>))"
  using has_columns_tl[OF assms]
  by (simp add: add_result_def insert_row_ok QueryResult_keys)

lemma add_result_Inr:
  assumes "add_result ts q w ch s ex full cc db = Inr db'"
  shows "\<exists>t. db = Some t \<and> has_columns (tl QueryResult_columns) t \<and>
     db' = Some (t\<lparr>rows := rows t @ [new_row t (QueryResult ts q w ch cc s ex full)]\<rparr>)"
proof (cases db)
  case None
  with assms show ?thesis by (simp add: add_result_def)
next
  case (Some t)
  with assms obtain t' where "insert_row (QueryResult ts q w ch cc s ex full) t = Inr t'"
    and "db' = Some t'"
    by (auto simp add: add_result_def split: sum.splits)
  with Some insert_row_Inr[of "QueryResult ts q w ch cc s ex full" t t'] show ?thesis
    by (simp add: QueryResult_keys)
qed

lemma select_columns_ok:
  assumes "has_columns cols t"
  shows "select_columns cols rs t = Inr \<lparr>df_columns = cols, df_rows = map (\<lambda>r. map (cell r) cols) rs\<rparr>"
  using assms by (simp add: select_columns_def has_columns_def)

lemma df_records_select:
  "df_records \<lparr>df_columns = cols, df_rows = map (\<lambda>r. map (cell r) cols) rs\<rparr>
     = map (\<lambda>r. zip cols (map (cell r) cols)) rs"
  by (simp add: df_records_def comp_def)

lemma df_column_select:
  assumes "c \<in> set cols"
  shows "df_column c \<lparr>df_columns = cols, df_rows = map (\<lambda>r. map (cell r) cols) rs\<rparr>
     = map (\<lambda>r. cell r c) rs"
  using assms by (simp add: df_column_def df_records_select comp_def cell_zip)

lemma has_columns_fresh: "has_columns QueryResult_columns \<lparr>columns = QueryResult_columns, rows = []\<rparr>"
  by (simp add: has_columns_def QueryResult_columns_def)

lemma has_columns_late: "has_columns QueryResult_columns late_table"
  by (simp add: has_columns_def late_table_def QueryResult_columns_def)

lemma has_columns_tie: "has_columns latest_columns tie_table"
  by (simp add: has_columns_def tie_table_def QueryResult_columns_def latest_columns_def)

lemma has_columns_history: "has_columns latest_columns history_table"
  by (simp add: has_columns_def history_table_def QueryResult_columns_def latest_columns_def)

subsection \<open>Initialisation\<close>

lemma init_db_None: "init_db None = Some \<lparr>columns = QueryResult_columns, rows = []\<rparr>"
  by (simp add: init_db_def create_all_def migrate_database_def table_info_def
      QueryResult_columns_def)

lemma init_db_present:
  assumes "''context_category'' \<in> set (columns t)"
  shows "init_db (Some t) = Some t"
  using assms by (simp add: init_db_def create_all_def migrate_database_def table_info_def)

lemma init_db_missing:
  assumes "''context_category'' \<notin> set (columns t)"
  shows "init_db (Some t) = Some \<lparr>columns = columns t @ [''context_category''],
            rows = map (\<lambda>r. r @ [(''context_category'', StrV ''General'')]) (rows t)\<rparr>"
  using assms
  by (simp add: init_db_def create_all_def migrate_database_def table_info_def add_column_def)

lemma wf_table_fresh: "wf_table \<lparr>columns = QueryResult_columns, rows = []\<rparr>"
  by (simp add: wf_table_def QueryResult_columns_def)

text \<open>
  C8.  Initialisation is idempotent.  On a store that is absent or well formed,
  \<open>init_db\<close> yields a table on which a second \<open>init_db\<close> changes nothing; the table
  has no column twice and has the column \<open>context_category\<close>; no stored row is lost
  and the old columns of every row read as before; and the column is added, reading
  \<open>General\<close> in every stored row, exactly when it was missing (a table that has it is
  left as it is; an absent table is created with the columns of the model).
\<close>

theorem init_db_idempotent:
  assumes "case db of None \<Rightarrow> True | Some t \<Rightarrow> wf_table t"
  shows "\<exists>t'. init_db db = Some t' \<and> init_db (Some t') = Some t' \<and> wf_table t' \<and>
      ''context_category'' \<in> set (columns t') \<and>
      (case db of
         None \<Rightarrow> columns t' = QueryResult_columns \<and> rows t' = []
       | Some t \<Rightarrow>
           length (rows t') = length (rows t) \<and>
           map (\<lambda>r. map (cell r) (columns t)) (rows t')
             = map (\<lambda>r. map (cell r) (columns t)) (rows t) \<and>
           (if ''context_category'' \<in> set (columns t) then t' = t
            else columns t' = columns t @ [''context_category''] \<and>
                 map (\<lambda>r. cell r ''context_category'') (rows t')
                   = replicate (length (rows t)) (StrV ''General'')))"
proof (cases db)
  case None
  let ?t' = "\<lparr>columns = QueryResult_columns, rows = []\<rparr>"
  have cc: "''context_category'' \<in> set (columns ?t')" by (simp add: QueryResult_columns_def)
  have "init_db db = Some ?t'" using None by (simp add: init_db_None)
  moreover have "init_db (Some ?t') = Some ?t'" using cc by (rule init_db_present)
  moreover have "wf_table ?t'" by (rule wf_table_fresh)
  ultimately show ?thesis using None cc by simp
next
  case (Some t)
  with assms have wf: "wf_table t" by simp
  show ?thesis
  proof (cases "''context_category'' \<in> set (columns t)")
    case True
    then have "init_db (Some t) = Some t" by (rule init_db_present)
    with Some True wf show ?thesis by simp
  next
    case False
    let ?k = "''context_category''"
    let ?t' = "\<lparr>columns = columns t @ [?k],
            rows = map (\<lambda>r. r @ [(?k, StrV ''General'')]) (rows t)\<rparr>"
    have 1: "init_db (Some t) = Some ?t'" using False by (rule init_db_missing)
    have 2: "init_db (Some ?t') = Some ?t'" by (rule init_db_present) simp
    from wf have keys: "\<And>r. r \<in> set (rows t) \<Longrightarrow> map fst r = columns t"
      by (simp add: wf_table_def list_all_iff)
    have 3: "wf_table ?t'" using wf False by (simp add: wf_table_def list_all_iff)
    have old: "\<And>r c. c \<in> set (columns t) \<Longrightarrow> cell (r @ [(?k, StrV ''General'')]) c = cell r c"
      using False by (intro cell_append_other) auto
    have 4: "map (\<lambda>r. map (cell r) (columns t)) (rows ?t')
        = map (\<lambda>r. map (cell r) (columns t)) (rows t)"
      by (simp add: comp_def old cong: map_cong)
    have new: "\<And>r. r \<in> set (rows t) \<Longrightarrow> cell (r @ [(?k, StrV ''General'')]) ?k = StrV ''General''"
      using False keys by (intro cell_append_new) simp
    have 5: "map (\<lambda>r. cell r ?k) (rows ?t') = replicate (length (rows t)) (StrV ''General'')"
      by (simp add: comp_def new map_replicate_const cong: map_cong)
    from 1 2 3 4 5 Some False show ?thesis by simp
  qed
qed

theorem init_db_idempotent_witness:
  "(case Some legacy_table of None \<Rightarrow> True | Some t \<Rightarrow> wf_table t) \<and>
   init_db (Some legacy_table) = Some migrated_table \<and>
   init_db (init_db (Some legacy_table)) = Some migrated_table \<and>
   wf_table migrated_table"
proof -
  have wf: "case Some legacy_table of None \<Rightarrow> True | Some t \<Rightarrow> wf_table t"
    by (simp add: wf_table_def legacy_table_def)
  have m: "init_db (Some legacy_table) = Some migrated_table"
    by (simp add: init_db_def create_all_def migrate_database_def table_info_def
        add_column_def legacy_table_def migrated_table_def)
  from init_db_idempotent[OF wf] m
  have "init_db (Some migrated_table) = Some migrated_table \<and> wf_table migrated_table"
    by auto
  with wf m show ?thesis by simp
qed

subsection \<open>The range query\<close>

lemma min_time_le: "((0, 0, 0, 0) :: time_of_day) \<le> tod"
  by (cases tod) auto

lemma valid_time_le_max: "valid_time tod \<Longrightarrow> tod \<le> (23, 59, 59, 999999)"
  by (cases tod) auto

text \<open>
  For a wall-clock time a \<^verbatim>\<open>datetime\<close> can hold, lying between the start date at 00:00:00
  and the end date at 23:59:59.999999 is the same as having its day spanned by the bounds.
\<close>

lemma within_day_iff:
  assumes "valid_time (snd w)"
  shows "within (23, 59, 59, 999999) start end w \<longleftrightarrow> spans start end w"
proof -
  obtain d tod where w: "w = (d, tod)" by (cases w)
  with assms have "tod \<le> (23, 59, 59, 999999)" by (simp add: valid_time_le_max)
  moreover have "(0, 0, 0, 0) \<le> tod" by (rule min_time_le)
  ultimately show ?thesis
    unfolding within_def spans_def w
    by (auto split: option.splits)
qed

lemma row_timestamp_new_row:
  assumes "has_columns QueryResult_columns t"
  shows "row_timestamp (new_row t (QueryResult ts q w ch cc s ex full)) = Some (fst ts)"
proof -
  from assms have "''timestamp'' \<in> set (columns t)"
    by (simp add: has_columns_def QueryResult_columns_def)
  then have "cell (new_row t (QueryResult ts q w ch cc s ex full)) ''timestamp''
      = stored_val (DateTimeV ts)"
    by (rule cell_new_row_stored) (simp add: QueryResult_def)
  then show ?thesis by (simp add: row_timestamp_def stored_val_def)
qed

text \<open>The frame of the range query: the rows in the interval, in the engine's order.\<close>

lemma get_results_filter:
  assumes "has_columns QueryResult_columns t"
  shows "get_results scan start end (Some t) =
    (Inr \<lparr>df_columns = QueryResult_columns,
          df_rows = map (\<lambda>r. map (cell r) QueryResult_columns)
            (scan (filter (\<lambda>r. case row_timestamp r of
                            Some w \<Rightarrow> within (23, 59, 59, 999999) start end w
                          | None \<Rightarrow> start = None \<and> end = None) (rows t)))\<rparr>,
     Some t)"
proof -
  let ?P = "\<lambda>r. case row_timestamp r of
                  Some w \<Rightarrow> within (23, 59, 59, 999999) start end w
                | None \<Rightarrow> start = None \<and> end = None"
  let ?rs1 = "case start of Some s \<Rightarrow> filter (timestamp_ge (combine s min_time)) (rows t)
                | None \<Rightarrow> rows t"
  let ?rs2 = "case end of Some e \<Rightarrow> filter (timestamp_le (combine e max_time)) ?rs1
                | None \<Rightarrow> ?rs1"
  have "?rs2 = filter ?P (rows t)"
  proof (cases start; cases "end")
    assume "start = None" "end = None"
    then show ?thesis by (simp add: within_def split: option.splits)
  next
    fix e assume "start = None" "end = Some e"
    then show ?thesis
      by (auto simp add: within_def timestamp_le_def combine_def max_time_def
          split: option.splits intro!: filter_cong)
  next
    fix s assume "start = Some s" "end = None"
    then show ?thesis
      by (auto simp add: within_def timestamp_ge_def combine_def min_time_def
          split: option.splits intro!: filter_cong)
  next
    fix s e assume "start = Some s" "end = Some e"
    then show ?thesis
      by (auto simp add: within_def timestamp_ge_def timestamp_le_def combine_def
          min_time_def max_time_def split: option.splits intro!: filter_cong)
  qed
  then show ?thesis
    by (simp add: get_results_def Let_def select_columns_ok[OF assms])
qed

lemma get_results_late:
  "get_results (\<lambda>rs. rs) (Some (2025, 3, 1)) (Some (2025, 3, 1)) (Some late_table)
     = (Inr late_frame, Some late_table)"
  unfolding get_results_filter[OF has_columns_late]
  by (simp add: late_table_def late_frame_def stored_row_def QueryResult_def
      QueryResult_columns_def cell_def row_timestamp_def within_def)

text \<open>
  C5, as stated.  The job writes the aware timestamp \<^verbatim>\<open>datetime.now(T_ZONE)\<close>.  Written
  with such a timestamp to a fresh store, the record is read back by the range query over
  its day with a naive timestamp, the wall-clock fields without the zone, which is not
  the value that was written.
\<close>

theorem add_result_get_results_zone_counterexample:
  "add_result (((2025, 3, 1), (23, 59, 59, 500000)), Some ''Europe/Amsterdam'')
      ''What is Whoppah?'' True False ''Neutral'' ''Whoppah sells chairs.''
      ''Whoppah sells chairs.'' ''Shopping'' (init_db None) = Inr (Some late_table) \<and>
   get_results (\<lambda>rs. rs) (Some (2025, 3, 1)) (Some (2025, 3, 1)) (Some late_table)
     = (Inr late_frame, Some late_table) \<and>
   df_column ''timestamp'' late_frame
     = [DateTimeV (((2025, 3, 1), (23, 59, 59, 500000)), None)] \<and>
   DateTimeV (((2025, 3, 1), (23, 59, 59, 500000)), None)
     \<noteq> DateTimeV (((2025, 3, 1), (23, 59, 59, 500000)), Some ''Europe/Amsterdam'')"
proof -
  have 1: "add_result (((2025, 3, 1), (23, 59, 59, 500000)), Some ''Europe/Amsterdam'')
      ''What is Whoppah?'' True False ''Neutral'' ''Whoppah sells chairs.''
      ''Whoppah sells chairs.'' ''Shopping'' (init_db None) = Inr (Some late_table)"
    unfolding init_db_None add_result_ok[OF has_columns_fresh]
    by (simp add: new_row_def QueryResult_def QueryResult_columns_def stored_val_def
        next_id_def late_table_def stored_row_def)
  have 3: "df_column ''timestamp'' late_frame
     = [DateTimeV (((2025, 3, 1), (23, 59, 59, 500000)), None)]"
    by (simp add: df_column_def df_records_def late_frame_def cell_def)
  from 1 get_results_late 3 show ?thesis by simp
qed

text \<open>
  C5, amended.  A record written by \<open>add_result\<close> to a table that has the columns of the
  model is read back by \<open>get_results\<close> under every pair of optional date bounds that span
  the day of its timestamp, whatever the order in which the engine hands out the rows:
  both calls succeed, and the frame holds a row whose query, mention flag, context
  category, sentiment, excerpt and full response (and the \<open>chairish_mentioned\<close> flag) are
  the values written, and whose timestamp has the wall-clock fields of the timestamp
  written and no zone; it is the timestamp written when that was naive.
\<close>

theorem add_result_get_results_roundtrip:
  assumes cols: "has_columns QueryResult_columns t"
    and valid: "valid_time (snd (fst ts))"
    and span: "spans start end (fst ts)"
    and perm: "\<And>rs. mset (scan rs) = mset rs"
  shows "\<exists>t' df.
      add_result ts q whoppah chairish sentiment excerpt full cat (Some t) = Inr (Some t') \<and>
      get_results scan start end (Some t') = (Inr df, Some t') \<and>
      (\<exists>r \<in> set (df_records df).
          cell r ''timestamp'' = DateTimeV (fst ts, None) \<and>
          (snd ts = None \<longrightarrow> cell r ''timestamp'' = DateTimeV ts) \<and>
          cell r ''query'' = StrV q \<and>
          cell r ''whoppah_mentioned'' = BoolV whoppah \<and>
          cell r ''chairish_mentioned'' = BoolV chairish \<and>
          cell r ''context_category'' = StrV cat \<and>
          cell r ''sentiment'' = StrV sentiment \<and>
          cell r ''excerpt'' = StrV excerpt \<and>
          cell r ''full_response'' = StrV full)"
proof -
  let ?vals = "QueryResult ts q whoppah chairish cat sentiment excerpt full"
  let ?nr = "new_row t ?vals"
  let ?t' = "t\<lparr>rows := rows t @ [?nr]\<rparr>"
  let ?P = "\<lambda>r. case row_timestamp r of
                  Some w \<Rightarrow> within (23, 59, 59, 999999) start end w
                | None \<Rightarrow> start = None \<and> end = None"
  let ?df = "\<lparr>df_columns = QueryResult_columns,
          df_rows = map (\<lambda>r. map (cell r) QueryResult_columns) (scan (filter ?P (rows ?t')))\<rparr>"
  let ?rec = "zip QueryResult_columns (map (cell ?nr) QueryResult_columns)"
  have add: "add_result ts q whoppah chairish sentiment excerpt full cat (Some t) = Inr (Some ?t')"
    using cols by (rule add_result_ok)
  have cols': "has_columns QueryResult_columns ?t'" using cols by simp
  have get: "get_results scan start end (Some ?t') = (Inr ?df, Some ?t')"
    using cols' by (rule get_results_filter)
  have "row_timestamp ?nr = Some (fst ts)" using cols by (rule row_timestamp_new_row)
  moreover have "within (23, 59, 59, 999999) start end (fst ts)"
    using valid span by (simp add: within_day_iff)
  ultimately have "?P ?nr" by simp
  then have "?nr \<in> set (filter ?P (rows ?t'))" by simp
  moreover have "set (scan (filter ?P (rows ?t'))) = set (filter ?P (rows ?t'))"
    using perm by (rule mset_eq_setD)
  ultimately have "?nr \<in> set (scan (filter ?P (rows ?t')))" by simp
  then have "(\<lambda>r. zip QueryResult_columns (map (cell r) QueryResult_columns)) ?nr
      \<in> (\<lambda>r. zip QueryResult_columns (map (cell r) QueryResult_columns))
          ` set (scan (filter ?P (rows ?t')))"
    by (rule imageI)
  then have mem: "?rec \<in> set (df_records ?df)"
    unfolding df_records_select set_map .
  have val: "\<And>c v. c \<in> set QueryResult_columns \<Longrightarrow> map_of ?vals c = Some v
      \<Longrightarrow> cell ?rec c = stored_val v"
  proof -
    fix c v assume c: "c \<in> set QueryResult_columns" and v: "map_of ?vals c = Some v"
    from cols c have "c \<in> set (columns t)" by (rule has_columns_mem)
    then have "cell ?nr c = stored_val v" using v by (rule cell_new_row_stored)
    with c show "cell ?rec c = stored_val v" by (simp add: cell_zip)
  qed
  have "cell ?rec ''timestamp'' = stored_val (DateTimeV ts)"
    by (rule val) (simp_all add: QueryResult_columns_def QueryResult_def)
  then have ts1: "cell ?rec ''timestamp'' = DateTimeV (fst ts, None)"
    by (simp add: stored_val_def)
  have "snd ts = None \<longrightarrow> (fst ts, None) = ts" by (cases ts) simp
  with ts1 have ts2: "snd ts = None \<longrightarrow> cell ?rec ''timestamp'' = DateTimeV ts"
    by simp
  have "cell ?rec ''query'' = stored_val (StrV q)"
    by (rule val) (simp_all add: QueryResult_columns_def QueryResult_def)
  then have f1: "cell ?rec ''query'' = StrV q" by (simp add: stored_val_def)
  have "cell ?rec ''whoppah_mentioned'' = stored_val (BoolV whoppah)"
    by (rule val) (simp_all add: QueryResult_columns_def QueryResult_def)
  then have f2: "cell ?rec ''whoppah_mentioned'' = BoolV whoppah" by (simp add: stored_val_def)
  have "cell ?rec ''chairish_mentioned'' = stored_val (BoolV chairish)"
    by (rule val) (simp_all add: QueryResult_columns_def QueryResult_def)
  then have f3: "cell ?rec ''chairish_mentioned'' = BoolV chairish"
    by (simp add: stored_val_def)
  have "cell ?rec ''context_category'' = stored_val (StrV cat)"
    by (rule val) (simp_all add: QueryResult_columns_def QueryResult_def)
  then have f4: "cell ?rec ''context_category'' = StrV cat" by (simp add: stored_val_def)
  have "cell ?rec ''sentiment'' = stored_val (StrV sentiment)"
    by (rule val) (simp_all add: QueryResult_columns_def QueryResult_def)
  then have f5: "cell ?rec ''sentiment'' = StrV sentiment" by (simp add: stored_val_def)
  have "cell ?rec ''excerpt'' = stored_val (StrV excerpt)"
    by (rule val) (simp_all add: QueryResult_columns_def QueryResult_def)
  then have f6: "cell ?rec ''excerpt'' = StrV excerpt" by (simp add: stored_val_def)
  have "cell ?rec ''full_response'' = stored_val (StrV full)"
    by (rule val) (simp_all add: QueryResult_columns_def QueryResult_def)
  then have f7: "cell ?rec ''full_response'' = StrV full" by (simp add: stored_val_def)
  have "\<exists>r \<in> set (df_records ?df).
          cell r ''timestamp'' = DateTimeV (fst ts, None) \<and>
          (snd ts = None \<longrightarrow> cell r ''timestamp'' = DateTimeV ts) \<and>
          cell r ''query'' = StrV q \<and>
          cell r ''whoppah_mentioned'' = BoolV whoppah \<and>
          cell r ''chairish_mentioned'' = BoolV chairish \<and>
          cell r ''context_category'' = StrV cat \<and>
          cell r ''sentiment'' = StrV sentiment \<and>
          cell r ''excerpt'' = StrV excerpt \<and>
          cell r ''full_response'' = StrV full"
    by (rule bexI[OF _ mem]) (intro conjI ts1 ts2 f1 f2 f3 f4 f5 f6 f7)
  with add get show ?thesis by (intro exI[of _ ?t'] exI[of _ ?df] conjI)
qed

theorem add_result_get_results_roundtrip_witness:
  "has_columns QueryResult_columns late_table \<and>
   valid_time (0, 0, 0, 0) \<and>
   spans (Some (2025, 3, 2)) (Some (2025, 3, 2)) ((2025, 3, 2), (0, 0, 0, 0)) \<and>
   (\<forall>rs. mset (sort_key row_timestamp rs) = mset rs) \<and>
   (\<exists>t' df.
      add_result (((2025, 3, 2), (0, 0, 0, 0)), Some ''Europe/Amsterdam'')
          ''Best Dutch furniture marketplaces'' True False
          ''Positive'' ''Whoppah is the best.'' ''Whoppah is the best.'' ''Recommendation''
          (Some late_table) = Inr (Some t') \<and>
      get_results (sort_key row_timestamp) (Some (2025, 3, 2)) (Some (2025, 3, 2)) (Some t')
        = (Inr df, Some t') \<and>
      (\<exists>r \<in> set (df_records df).
          cell r ''timestamp'' = DateTimeV (((2025, 3, 2), (0, 0, 0, 0)), None) \<and>
          cell r ''query'' = StrV ''Best Dutch furniture marketplaces'' \<and>
          cell r ''whoppah_mentioned'' = BoolV True \<and>
          cell r ''chairish_mentioned'' = BoolV False \<and>
          cell r ''context_category'' = StrV ''Recommendation'' \<and>
          cell r ''sentiment'' = StrV ''Positive'' \<and>
          cell r ''excerpt'' = StrV ''Whoppah is the best.'' \<and>
          cell r ''full_response'' = StrV ''Whoppah is the best.''))"
proof -
  let ?ts = "(((2025, 3, 2), (0, 0, 0, 0)), Some ''Europe/Amsterdam'') :: datetime"
  have v: "valid_time (snd (fst ?ts))" by simp
  have s: "spans (Some (2025, 3, 2)) (Some (2025, 3, 2)) (fst ?ts)"
    by (simp add: spans_def)
  have p: "\<And>rs. mset (sort_key row_timestamp rs) = mset rs" by simp
  from add_result_get_results_roundtrip[of late_table ?ts "Some (2025, 3, 2)"
      "Some (2025, 3, 2)" "sort_key row_timestamp", OF has_columns_late v s p]
  have "\<exists>t' df.
      add_result ?ts
          ''Best Dutch furniture marketplaces'' True False
          ''Positive'' ''Whoppah is the best.'' ''Whoppah is the best.'' ''Recommendation''
          (Some late_table) = Inr (Some t') \<and>
      get_results (sort_key row_timestamp) (Some (2025, 3, 2)) (Some (2025, 3, 2)) (Some t')
        = (Inr df, Some t') \<and>
      (\<exists>r \<in> set (df_records df).
          cell r ''timestamp'' = DateTimeV (((2025, 3, 2), (0, 0, 0, 0)), None) \<and>
          cell r ''query'' = StrV ''Best Dutch furniture marketplaces'' \<and>
          cell r ''whoppah_mentioned'' = BoolV True \<and>
          cell r ''chairish_mentioned'' = BoolV False \<and>
          cell r ''context_category'' = StrV ''Recommendation'' \<and>
          cell r ''sentiment'' = StrV ''Positive'' \<and>
          cell r ''excerpt'' = StrV ''Whoppah is the best.'' \<and>
          cell r ''full_response'' = StrV ''Whoppah is the best.'')"
    by (simp del: mset_sort)
  moreover have "valid_time (0, 0, 0, 0)" by simp
  moreover have "spans (Some (2025, 3, 2)) (Some (2025, 3, 2)) ((2025, 3, 2), (0, 0, 0, 0))"
    by (simp add: spans_def)
  moreover have "\<forall>rs. mset (sort_key row_timestamp rs) = mset rs" by simp
  ultimately show ?thesis using has_columns_late by (intro conjI) assumption+
qed

text \<open>
  C6, as stated, with the interval ending at 23:59:59 of the end date: the table
  \<open>late_table\<close> holds one row stamped 23:59:59.5 on 1 March 2025; the query with end
  date 1 March 2025 returns it, although its timestamp lies after 23:59:59 of that day.
\<close>

theorem get_results_end_of_day_counterexample:
  "get_results (\<lambda>rs. rs) None (Some (2025, 3, 1)) (Some late_table)
     = (Inr late_frame, Some late_table) \<and>
   \<not> within (23, 59, 59, 0) None (Some (2025, 3, 1)) ((2025, 3, 1), (23, 59, 59, 500000))"
  by (simp add: get_results_def late_table_def late_frame_def stored_row_def QueryResult_def
      QueryResult_columns_def select_columns_def cell_def timestamp_le_def row_timestamp_def
      combine_def max_time_def within_def)

text \<open>
  C6, amended.  For every pair of optional date bounds, \<open>get_results\<close> returns exactly
  the rows whose timestamp lies within the inclusive interval from the start date at
  00:00:00 to the end date at 23:59:59.999999 (the last microsecond of the end date,
  \<^verbatim>\<open>datetime.max.time()\<close>), unbounded below without a start date and unbounded above
  without an end date: each such row once, and no other row.  The order of the returned
  rows is the engine's choice, the query having no \<^verbatim>\<open>ORDER BY\<close>.  (A row without a
  timestamp, which the \<^verbatim>\<open>NOT NULL\<close> column excludes, would be returned only when both
  bounds are omitted.)
\<close>

theorem get_results_interval:
  assumes cols: "has_columns QueryResult_columns t"
    and perm: "\<And>rs. mset (scan rs) = mset rs"
  shows "\<exists>df. get_results scan start end (Some t) = (Inr df, Some t) \<and>
      df_columns df = QueryResult_columns \<and>
      mset (df_rows df) =
        mset (map (\<lambda>r. map (cell r) QueryResult_columns)
          (filter (\<lambda>r. case row_timestamp r of
                          Some w \<Rightarrow> within (23, 59, 59, 999999) start end w
                        | None \<Rightarrow> start = None \<and> end = None) (rows t)))"
proof -
  let ?rs = "filter (\<lambda>r. case row_timestamp r of
                          Some w \<Rightarrow> within (23, 59, 59, 999999) start end w
                        | None \<Rightarrow> start = None \<and> end = None) (rows t)"
  let ?df = "\<lparr>df_columns = QueryResult_columns,
          df_rows = map (\<lambda>r. map (cell r) QueryResult_columns) (scan ?rs)\<rparr>"
  have get: "get_results scan start end (Some t) = (Inr ?df, Some t)"
    using cols by (rule get_results_filter)
  have "mset (scan ?rs) = mset ?rs" by (rule perm)
  then have "mset (map (\<lambda>r. map (cell r) QueryResult_columns) (scan ?rs))
      = mset (map (\<lambda>r. map (cell r) QueryResult_columns) ?rs)"
    by (simp only: mset_map)
  then have rows: "mset (df_rows ?df) = mset (map (\<lambda>r. map (cell r) QueryResult_columns) ?rs)"
    by simp
  have "df_columns ?df = QueryResult_columns" by simp
  with get rows show ?thesis by (intro exI[of _ ?df] conjI)
qed

lemma has_columns_history_all: "has_columns QueryResult_columns history_table"
  by (simp add: has_columns_def history_table_def QueryResult_columns_def)

lemma history_filter:
  "filter (\<lambda>r. case row_timestamp r of
                  Some w \<Rightarrow> within (23, 59, 59, 999999) (Some (2025, 3, 2)) None w
                | None \<Rightarrow> (Some (2025, 3, 2) :: date option) = None
                        \<and> (None :: date option) = None)
      (rows history_table)
   = [stored_row 2 ((2025, 3, 3), (9, 0, 0, 0)) ''Where to buy chairs?'',
      stored_row 3 ((2025, 3, 2), (9, 0, 0, 0)) ''How to sell a lamp?'']"
  by (simp add: history_table_def row_timestamp_def cell_def stored_row_def
      QueryResult_def within_def)

lemma history_index_order:
  "sort_key row_timestamp
      [stored_row 2 ((2025, 3, 3), (9, 0, 0, 0)) ''Where to buy chairs?'',
       stored_row 3 ((2025, 3, 2), (9, 0, 0, 0)) ''How to sell a lamp?'']
   = [stored_row 3 ((2025, 3, 2), (9, 0, 0, 0)) ''How to sell a lamp?'',
      stored_row 2 ((2025, 3, 3), (9, 0, 0, 0)) ''Where to buy chairs?'']"
proof -
  have 2: "row_timestamp (stored_row 2 ((2025, 3, 3), (9, 0, 0, 0)) ''Where to buy chairs?'')
      = Some ((2025, 3, 3), (9, 0, 0, 0))"
    by (simp add: row_timestamp_def cell_def stored_row_def QueryResult_def)
  have 3: "row_timestamp (stored_row 3 ((2025, 3, 2), (9, 0, 0, 0)) ''How to sell a lamp?'')
      = Some ((2025, 3, 2), (9, 0, 0, 0))"
    by (simp add: row_timestamp_def cell_def stored_row_def QueryResult_def)
  show ?thesis by (simp add: 2 3)
qed

lemma get_results_history:
  "get_results (sort_key row_timestamp) (Some (2025, 3, 2)) None (Some history_table)
     = (Inr history_range, Some history_table)"
  unfolding get_results_filter[OF has_columns_history_all] history_filter history_index_order
  by (simp add: cell_def stored_row_def QueryResult_def QueryResult_columns_def
      history_range_def)

theorem get_results_interval_witness:
  "has_columns QueryResult_columns history_table \<and>
   (\<forall>rs. mset (sort_key row_timestamp rs) = mset rs) \<and>
   get_results (sort_key row_timestamp) (Some (2025, 3, 2)) None (Some history_table)
     = (Inr history_range, Some history_table) \<and>
   mset (df_rows history_range) =
     mset (map (\<lambda>r. map (cell r) QueryResult_columns)
       [stored_row 2 ((2025, 3, 3), (9, 0, 0, 0)) ''Where to buy chairs?'',
        stored_row 3 ((2025, 3, 2), (9, 0, 0, 0)) ''How to sell a lamp?''])"
proof -
  have p: "\<And>rs. mset (sort_key row_timestamp rs) = mset rs" by (rule mset_sort)
  from get_results_interval[of history_table "sort_key row_timestamp" "Some (2025, 3, 2)" None,
      OF has_columns_history_all p]
  obtain df where d: "get_results (sort_key row_timestamp) (Some (2025, 3, 2)) None
        (Some history_table) = (Inr df, Some history_table)"
    and m: "mset (df_rows df) =
        mset (map (\<lambda>r. map (cell r) QueryResult_columns)
          (filter (\<lambda>r. case row_timestamp r of
                          Some w \<Rightarrow> within (23, 59, 59, 999999) (Some (2025, 3, 2)) None w
                        | None \<Rightarrow> (Some (2025, 3, 2) :: date option) = None
                        \<and> (None :: date option) = None)
              (rows history_table)))"
    by blast
  from d have "df = history_range" unfolding get_results_history by (simp only: prod.inject sum.inject)
  with m have 4: "mset (df_rows history_range) =
     mset (map (\<lambda>r. map (cell r) QueryResult_columns)
       [stored_row 2 ((2025, 3, 3), (9, 0, 0, 0)) ''Where to buy chairs?'',
        stored_row 3 ((2025, 3, 2), (9, 0, 0, 0)) ''How to sell a lamp?''])"
    by (simp only: history_filter)
  have 2: "\<forall>rs. mset (sort_key row_timestamp rs) = mset rs" by (simp only: mset_sort simp_thms)
  show ?thesis by (intro conjI has_columns_history_all 2 get_results_history 4)
qed

subsection \<open>The latest excerpts\<close>

lemma val_timestamp_cell: "val_timestamp (cell r ''timestamp'') = row_timestamp r"
  by (simp add: val_timestamp_def row_timestamp_def)

lemma get_latest_excerpts_ok:
  assumes "has_columns latest_columns t" and "int64 n"
  shows "get_latest_excerpts scan n (Some t) =
    (Inr \<lparr>df_columns = latest_columns,
          df_rows = map (\<lambda>r. map (cell r) latest_columns)
            (limit_rows n (order_by_timestamp_desc scan (rows t)))\<rparr>,
     Some t)"
proof -
  from assms(1) have "list_all (\<lambda>c. c \<in> set (columns t)) latest_columns"
    by (simp add: has_columns_def)
  with assms(2) show ?thesis
    by (simp add: get_latest_excerpts_def select_columns_ok[OF assms(1)])
qed

lemma get_latest_excerpts_overflow:
  assumes "has_columns latest_columns t" and "\<not> int64 n"
  shows "get_latest_excerpts scan n (Some t) = (Inl OverflowError, Some t)"
proof -
  from assms(1) have "list_all (\<lambda>c. c \<in> set (columns t)) latest_columns"
    by (simp add: has_columns_def)
  with assms(2) show ?thesis by (simp add: get_latest_excerpts_def)
qed

lemma desc_sorted:
  "sorted_wrt (\<lambda>a b. b \<le> a) (map row_timestamp (order_by_timestamp_desc scan rs))"
proof -
  have "sorted (map row_timestamp (sort_key row_timestamp (scan rs)))"
    by (rule sorted_sort_key)
  then show ?thesis
    by (simp add: order_by_timestamp_desc_def rev_map[symmetric] sorted_wrt_rev)
qed

lemma desc_strict:
  assumes "distinct (map row_timestamp rs)" and "mset (scan rs) = mset rs"
  shows "sorted_wrt (\<lambda>a b. b < a) (map row_timestamp (order_by_timestamp_desc scan rs))"
proof -
  from assms(2) have "mset (map row_timestamp (scan rs)) = mset (map row_timestamp rs)"
    by (simp only: mset_map)
  then have "distinct (map row_timestamp (scan rs)) = distinct (map row_timestamp rs)"
    by (rule mset_eq_imp_distinct_iff)
  with assms(1) have "distinct (map row_timestamp (scan rs))" by simp
  then have "distinct (scan rs)" and "inj_on row_timestamp (set (scan rs))"
    by (simp_all add: distinct_map)
  then have "distinct (map row_timestamp (sort_key row_timestamp (scan rs)))"
    by (simp add: distinct_map)
  moreover have "sorted (map row_timestamp (sort_key row_timestamp (scan rs)))"
    by (rule sorted_sort_key)
  ultimately have "sorted_wrt (<) (map row_timestamp (sort_key row_timestamp (scan rs)))"
    by (simp add: strict_sorted_iff)
  then show ?thesis
    by (simp add: order_by_timestamp_desc_def rev_map[symmetric] sorted_wrt_rev)
qed

lemma sorted_wrt_limit:
  assumes "sorted_wrt R (map f rs)"
  shows "sorted_wrt R (map f (limit_rows n rs))"
proof (cases "n < 0")
  case True
  with assms show ?thesis by (simp add: limit_rows_def)
next
  case False
  from assms have "sorted_wrt R (take (nat n) (map f rs))" by (rule sorted_wrt_take)
  with False show ?thesis by (simp add: limit_rows_def take_map)
qed

lemma length_limit_rows:
  assumes "0 \<le> n"
  shows "length (limit_rows n rs) = min (nat n) (length rs)"
  using assms by (simp add: limit_rows_def min_def)

lemma length_desc:
  assumes "mset (scan rs) = mset rs"
  shows "length (order_by_timestamp_desc scan rs) = length rs"
  using mset_eq_length[OF assms] by (simp add: order_by_timestamp_desc_def)

lemma timestamps_tie_frame:
  "map val_timestamp (df_column ''timestamp'' tie_frame)
     = [Some ((2025, 3, 1), (9, 0, 0, 0)), Some ((2025, 3, 1), (9, 0, 0, 0))]"
  by (simp add: tie_frame_def df_column_def df_records_def cell_def val_timestamp_def)

lemma desc_tie:
  "order_by_timestamp_desc (\<lambda>rs. rs) (rows tie_table)
      = [stored_row 2 ((2025, 3, 1), (9, 0, 0, 0)) ''Where to buy chairs?'',
         stored_row 1 ((2025, 3, 1), (9, 0, 0, 0)) ''What is Whoppah?'']"
  by (simp add: order_by_timestamp_desc_def tie_table_def row_timestamp_def cell_def
      stored_row_def QueryResult_def)

lemma int64_2: "int64 2"
  by (simp add: int64_def)

lemma latest_history:
  "get_latest_excerpts (\<lambda>rs. rs) 2 (Some history_table)
     = (Inr history_frame, Some history_table)"
proof -
  have rs: "order_by_timestamp_desc (\<lambda>rs. rs) (rows history_table)
      = [stored_row 2 ((2025, 3, 3), (9, 0, 0, 0)) ''Where to buy chairs?'',
         stored_row 3 ((2025, 3, 2), (9, 0, 0, 0)) ''How to sell a lamp?'',
         stored_row 1 ((2025, 3, 1), (9, 0, 0, 0)) ''What is Whoppah?'']"
    by (simp add: order_by_timestamp_desc_def history_table_def row_timestamp_def cell_def
        stored_row_def QueryResult_def)
  show ?thesis
    unfolding get_latest_excerpts_ok[OF has_columns_history int64_2] rs
    by (simp add: limit_rows_def latest_columns_def cell_def stored_row_def QueryResult_def
        history_frame_def)
qed

text \<open>
  C7, as stated.  The table \<open>tie_table\<close> holds two rows of equal timestamp;
  \<open>get_latest_excerpts\<close> with limit 2 returns both, so the timestamps of the result do
  not descend strictly.  And the claim does not hold for every integer: with the limit
  \<open>-1\<close>, which SQLite reads as no limit, the two rows are returned as well, more than
  the limit; and with the limit \<open>2^63\<close>, which does not fit the 64-bit integer the limit
  is bound as, the call raises \<^verbatim>\<open>OverflowError\<close> and returns no rows at all.
\<close>

theorem get_latest_excerpts_strict_counterexample:
  "get_latest_excerpts (\<lambda>rs. rs) 2 (Some tie_table) = (Inr tie_frame, Some tie_table) \<and>
   \<not> sorted_wrt (\<lambda>a b. b < a) (map val_timestamp (df_column ''timestamp'' tie_frame)) \<and>
   get_latest_excerpts (\<lambda>rs. rs) (- 1) (Some tie_table) = (Inr tie_frame, Some tie_table) \<and>
   \<not> int (length (df_rows tie_frame)) \<le> - 1 \<and>
   get_latest_excerpts (\<lambda>rs. rs) (2 ^ 63) (Some tie_table)
     = (Inl OverflowError, Some tie_table)"
proof -
  have 1: "get_latest_excerpts (\<lambda>rs. rs) 2 (Some tie_table) = (Inr tie_frame, Some tie_table)"
    unfolding get_latest_excerpts_ok[OF has_columns_tie int64_2] desc_tie
    by (simp add: limit_rows_def latest_columns_def cell_def stored_row_def QueryResult_def
        tie_frame_def)
  have "int64 (- 1)" by (simp add: int64_def)
  note ok = get_latest_excerpts_ok[OF has_columns_tie this]
  have 2: "get_latest_excerpts (\<lambda>rs. rs) (- 1) (Some tie_table)
      = (Inr tie_frame, Some tie_table)"
    unfolding ok desc_tie
    by (simp add: limit_rows_def latest_columns_def cell_def stored_row_def QueryResult_def
        tie_frame_def)
  have 3: "\<not> sorted_wrt (\<lambda>a b. b < a) (map val_timestamp (df_column ''timestamp'' tie_frame))"
    unfolding timestamps_tie_frame by simp
  have 4: "\<not> int (length (df_rows tie_frame)) \<le> - 1" by (simp add: tie_frame_def)
  have "\<not> int64 (2 ^ 63)" by (simp add: int64_def)
  with has_columns_tie
  have 5: "get_latest_excerpts (\<lambda>rs. rs) (2 ^ 63) (Some tie_table)
      = (Inl OverflowError, Some tie_table)"
    by (rule get_latest_excerpts_overflow)
  show ?thesis by (intro conjI 1 2 3 4 5)
qed

text \<open>
  C7, amended.  For every limit \<open>n\<close> with \<open>0 \<le> n < 2^63\<close>, \<open>get_latest_excerpts\<close> returns
  at most \<open>n\<close> rows (the smaller of \<open>n\<close> and the number of stored rows), ordered by
  descending timestamp, where rows of equal timestamp may follow each other in either
  order; the order is strictly descending when no two stored rows have the same
  timestamp.  The call leaves the store as it is, and a second call on the store it
  leaves returns the identical frame.
\<close>

theorem get_latest_excerpts_ordered:
  assumes cols: "has_columns latest_columns t" and n: "0 \<le> n" and n64: "n < 2 ^ 63"
    and perm: "\<And>rs. mset (scan rs) = mset rs"
  shows "\<exists>df. get_latest_excerpts scan n (Some t) = (Inr df, Some t) \<and>
      length (df_rows df) = min (nat n) (length (rows t)) \<and>
      length (df_rows df) \<le> nat n \<and>
      sorted_wrt (\<lambda>a b. b \<le> a) (map val_timestamp (df_column ''timestamp'' df)) \<and>
      (distinct (map row_timestamp (rows t)) \<longrightarrow>
         sorted_wrt (\<lambda>a b. b < a) (map val_timestamp (df_column ''timestamp'' df))) \<and>
      get_latest_excerpts scan n (snd (get_latest_excerpts scan n (Some t))) = (Inr df, Some t)"
proof -
  let ?rs = "limit_rows n (order_by_timestamp_desc scan (rows t))"
  let ?df = "\<lparr>df_columns = latest_columns,
          df_rows = map (\<lambda>r. map (cell r) latest_columns) ?rs\<rparr>"
  from n n64 have i64: "int64 n" by (simp add: int64_def)
  have get: "get_latest_excerpts scan n (Some t) = (Inr ?df, Some t)"
    using cols i64 by (rule get_latest_excerpts_ok)
  have len: "length (df_rows ?df) = min (nat n) (length (rows t))"
    using n by (simp add: length_limit_rows length_desc[OF perm])
  have "df_column ''timestamp'' ?df = map (\<lambda>r. cell r ''timestamp'') ?rs"
    by (rule df_column_select) (simp add: latest_columns_def)
  then have keys: "map val_timestamp (df_column ''timestamp'' ?df) = map row_timestamp ?rs"
    by (simp add: comp_def val_timestamp_cell)
  have desc: "sorted_wrt (\<lambda>a b. b \<le> a) (map row_timestamp ?rs)"
    using desc_sorted by (rule sorted_wrt_limit)
  have strict: "distinct (map row_timestamp (rows t)) \<longrightarrow>
      sorted_wrt (\<lambda>a b. b < a) (map row_timestamp ?rs)"
  proof
    assume "distinct (map row_timestamp (rows t))"
    then have "sorted_wrt (\<lambda>a b. b < a)
        (map row_timestamp (order_by_timestamp_desc scan (rows t)))"
      using perm by (rule desc_strict)
    then show "sorted_wrt (\<lambda>a b. b < a) (map row_timestamp ?rs)" by (rule sorted_wrt_limit)
  qed
  from get have again:
    "get_latest_excerpts scan n (snd (get_latest_excerpts scan n (Some t))) = (Inr ?df, Some t)"
    by simp
  from len have le: "length (df_rows ?df) \<le> nat n" by simp
  show ?thesis
  proof (intro exI[of _ ?df] conjI)
    show "get_latest_excerpts scan n (Some t) = (Inr ?df, Some t)" by (rule get)
    show "length (df_rows ?df) = min (nat n) (length (rows t))" by (rule len)
    show "length (df_rows ?df) \<le> nat n" by (rule le)
    show "sorted_wrt (\<lambda>a b. b \<le> a) (map val_timestamp (df_column ''timestamp'' ?df))"
      unfolding keys by (rule desc)
    show "distinct (map row_timestamp (rows t)) \<longrightarrow>
        sorted_wrt (\<lambda>a b. b < a) (map val_timestamp (df_column ''timestamp'' ?df))"
      unfolding keys by (rule strict)
    show "get_latest_excerpts scan n (snd (get_latest_excerpts scan n (Some t)))
        = (Inr ?df, Some t)"
      by (rule again)
  qed
qed

theorem get_latest_excerpts_ordered_witness:
  "has_columns latest_columns history_table \<and> (0::int) \<le> 2 \<and> (2::int) < 2 ^ 63 \<and>
   (\<forall>rs::row list. mset rs = mset rs) \<and>
   distinct (map row_timestamp (rows history_table)) \<and>
   get_latest_excerpts (\<lambda>rs. rs) 2 (Some history_table)
     = (Inr history_frame, Some history_table) \<and>
   length (df_rows history_frame) \<le> nat 2 \<and>
   sorted_wrt (\<lambda>a b. b < a) (map val_timestamp (df_column ''timestamp'' history_frame)) \<and>
   get_latest_excerpts (\<lambda>rs. rs) 2 (snd (get_latest_excerpts (\<lambda>rs. rs) 2 (Some history_table)))
     = (Inr history_frame, Some history_table)"
proof -
  have n: "(0::int) \<le> 2" by simp
  have n64: "(2::int) < 2 ^ 63" by simp
  have p: "\<And>rs::row list. mset ((\<lambda>rs. rs) rs) = mset rs" by simp
  have d: "distinct (map row_timestamp (rows history_table))"
    by (simp add: history_table_def row_timestamp_def cell_def stored_row_def QueryResult_def)
  from get_latest_excerpts_ordered[of history_table 2 "\<lambda>rs. rs", OF has_columns_history n n64 p]
  obtain df where g: "get_latest_excerpts (\<lambda>rs. rs) 2 (Some history_table)
        = (Inr df, Some history_table)"
    and l: "length (df_rows df) \<le> nat 2"
    and s: "distinct (map row_timestamp (rows history_table)) \<longrightarrow>
         sorted_wrt (\<lambda>a b. b < a) (map val_timestamp (df_column ''timestamp'' df))"
    and a: "get_latest_excerpts (\<lambda>rs. rs) 2
        (snd (get_latest_excerpts (\<lambda>rs. rs) 2 (Some history_table)))
        = (Inr df, Some history_table)"
    by blast
  from g have e: "df = history_frame" unfolding latest_history
    by (simp only: prod.inject sum.inject)
  from l have 1: "length (df_rows history_frame) \<le> nat 2" unfolding e .
  from s d have 2: "sorted_wrt (\<lambda>a b. b < a)
      (map val_timestamp (df_column ''timestamp'' history_frame))"
    unfolding e by (rule mp)
  from a have 3: "get_latest_excerpts (\<lambda>rs. rs) 2
        (snd (get_latest_excerpts (\<lambda>rs. rs) 2 (Some history_table)))
        = (Inr history_frame, Some history_table)" unfolding e .
  have 4: "\<forall>rs::row list. mset rs = mset rs" by simp
  show ?thesis by (intro conjI has_columns_history n n64 4 d latest_history 1 2 3)
qed

text \<open>
  C9, as stated.  For the table \<open>late_table\<close> the latest excerpts carry the label
  \<open>whoppah_mentioned\<close>, not \<open>mentioned\<close>, so the labels differ from the contract's
  list; the range query carries \<open>id\<close> and \<open>chairish_mentioned\<close> besides, so its labels
  are neither the contract's list nor that list followed by \<open>full_response\<close>.
\<close>

theorem reader_column_names_counterexample:
  "get_latest_excerpts (\<lambda>rs. rs) 10 (Some late_table) = (Inr late_latest, Some late_table) \<and>
   df_columns late_latest \<noteq> contract_columns \<and>
   ''mentioned'' \<notin> set (df_columns late_latest) \<and>
   get_results (\<lambda>rs. rs) None None (Some late_table) = (Inr late_frame, Some late_table) \<and>
   df_columns late_frame \<noteq> contract_columns \<and>
   df_columns late_frame \<noteq> contract_columns @ [''full_response''] \<and>
   ''mentioned'' \<notin> set (df_columns late_frame)"
  by (simp add: get_latest_excerpts_def get_results_def select_columns_def limit_rows_def
      order_by_timestamp_desc_def late_table_def late_latest_def late_frame_def
      contract_columns_def latest_columns_def QueryResult_columns_def stored_row_def
      QueryResult_def cell_def int64_def)

text \<open>
  C9, amended.  On a table that has the columns of the model, whatever the order in
  which the engine hands out the rows, the rows returned by \<open>get_latest_excerpts\<close> carry
  exactly the column names \<open>timestamp\<close>, \<open>query\<close>, \<open>whoppah_mentioned\<close>,
  \<open>context_category\<close>, \<open>sentiment\<close>, \<open>excerpt\<close>, and the rows returned by \<open>get_results\<close>
  carry exactly \<open>id\<close>, \<open>timestamp\<close>, \<open>query\<close>, \<open>whoppah_mentioned\<close>,
  \<open>chairish_mentioned\<close>, \<open>context_category\<close>, \<open>sentiment\<close>, \<open>excerpt\<close>,
  \<open>full_response\<close>, each row with one cell per name.  \<open>get_results\<close> returns such a frame
  for all bounds, and \<open>get_latest_excerpts\<close> for every limit that fits a 64-bit integer;
  for any other limit it raises \<^verbatim>\<open>OverflowError\<close> and returns no rows.
\<close>

theorem reader_column_names:
  assumes "has_columns QueryResult_columns t"
  shows "(\<exists>df. get_results scan start end (Some t) = (Inr df, Some t) \<and>
           df_columns df = [''id'', ''timestamp'', ''query'', ''whoppah_mentioned'',
             ''chairish_mentioned'', ''context_category'', ''sentiment'', ''excerpt'',
             ''full_response''] \<and>
           list_all (\<lambda>r. length r = 9) (df_rows df)) \<and>
         (if int64 n
          then \<exists>df. get_latest_excerpts scan' n (Some t) = (Inr df, Some t) \<and>
                 df_columns df = [''timestamp'', ''query'', ''whoppah_mentioned'',
                   ''context_category'', ''sentiment'', ''excerpt''] \<and>
                 list_all (\<lambda>r. length r = 6) (df_rows df)
          else get_latest_excerpts scan' n (Some t) = (Inl OverflowError, Some t))"
proof -
  from assms have lc: "has_columns latest_columns t"
    by (simp add: has_columns_def latest_columns_def QueryResult_columns_def)
  have 2: "if int64 n
          then \<exists>df. get_latest_excerpts scan' n (Some t) = (Inr df, Some t) \<and>
                 df_columns df = [''timestamp'', ''query'', ''whoppah_mentioned'',
                   ''context_category'', ''sentiment'', ''excerpt''] \<and>
                 list_all (\<lambda>r. length r = 6) (df_rows df)
          else get_latest_excerpts scan' n (Some t) = (Inl OverflowError, Some t)"
  proof (cases "int64 n")
    case True
    with lc have "get_latest_excerpts scan' n (Some t) =
      (Inr \<lparr>df_columns = latest_columns,
          df_rows = map (\<lambda>r. map (cell r) latest_columns)
            (limit_rows n (order_by_timestamp_desc scan' (rows t)))\<rparr>, Some t)"
      by (rule get_latest_excerpts_ok)
    with True show ?thesis by (simp add: latest_columns_def list_all_iff)
  next
    case False
    with lc have "get_latest_excerpts scan' n (Some t) = (Inl OverflowError, Some t)"
      by (rule get_latest_excerpts_overflow)
    with False show ?thesis by simp
  qed
  have 1: "\<exists>df. get_results scan start end (Some t) = (Inr df, Some t) \<and>
           df_columns df = [''id'', ''timestamp'', ''query'', ''whoppah_mentioned'',
             ''chairish_mentioned'', ''context_category'', ''sentiment'', ''excerpt'',
             ''full_response''] \<and>
           list_all (\<lambda>r. length r = 9) (df_rows df)"
    unfolding get_results_filter[OF assms]
    by (simp add: QueryResult_columns_def list_all_iff)
  from 1 2 show ?thesis by (rule conjI)
qed

theorem reader_column_names_witness:
  "has_columns QueryResult_columns late_table \<and> int64 10 \<and>
   get_results (\<lambda>rs. rs) None None (Some late_table) = (Inr late_frame, Some late_table) \<and>
   df_columns late_frame = [''id'', ''timestamp'', ''query'', ''whoppah_mentioned'',
     ''chairish_mentioned'', ''context_category'', ''sentiment'', ''excerpt'',
     ''full_response''] \<and>
   get_latest_excerpts (\<lambda>rs. rs) 10 (Some late_table) = (Inr late_latest, Some late_table) \<and>
   df_columns late_latest = [''timestamp'', ''query'', ''whoppah_mentioned'',
     ''context_category'', ''sentiment'', ''excerpt'']"
proof -
  have i: "int64 10" by (simp add: int64_def)
  have 1: "get_results (\<lambda>rs. rs) None None (Some late_table) = (Inr late_frame, Some late_table)"
    by (simp add: get_results_def select_columns_def late_table_def late_frame_def
        QueryResult_columns_def stored_row_def QueryResult_def cell_def)
  have 2: "get_latest_excerpts (\<lambda>rs. rs) 10 (Some late_table)
      = (Inr late_latest, Some late_table)"
    by (simp add: get_latest_excerpts_def select_columns_def limit_rows_def
      order_by_timestamp_desc_def late_table_def late_latest_def int64_def
      latest_columns_def QueryResult_columns_def stored_row_def QueryResult_def cell_def)
  from reader_column_names[OF has_columns_late, of "\<lambda>rs. rs" None None 10 "\<lambda>rs. rs"] i 1 2
    has_columns_late
  show ?thesis by auto
qed

subsection \<open>The daily job\<close>

lemma outcomes_Cons:
  "outcomes e k (q # qs) = (q, call_llm e k q) # outcomes e (Suc k) qs"
  by (simp add: outcomes_def)

lemma successes_Cons:
  "successes e k (q # qs) =
     (if isl (call_llm e k q) then successes e (Suc k) qs else q # successes e (Suc k) qs)"
  by (simp add: successes_def outcomes_Cons)

lemma failures_Cons:
  "failures e k (q # qs) =
     (if isl (call_llm e k q) then q # failures e (Suc k) qs else failures e (Suc k) qs)"
  by (simp add: failures_def outcomes_Cons)

lemma successes_Nil: "successes e k [] = []"
  by (simp add: successes_def outcomes_def)

lemma failures_Nil: "failures e k [] = []"
  by (simp add: failures_def outcomes_def)

lemma length_successes_failures:
  "length (successes e k qs) + length (failures e k qs) = length qs"
  by (induction qs arbitrary: k) (simp_all add: successes_Nil failures_Nil successes_Cons failures_Cons)

lemma length_QUERIES: "length QUERIES = 45"
  by (simp add: QUERIES_def)

text \<open>
  With a table that has the columns of the model, a run returns normally and appends one
  row per answered query, in catalog order.
\<close>

lemma run_loop_accepts:
  assumes "has_columns QueryResult_columns t"
  shows "\<exists>new. run_loop e k qs (Some t) = (Inr (), Some (t\<lparr>rows := rows t @ new\<rparr>)) \<and>
           map (\<lambda>r. cell r ''query'') new = map StrV (successes e k qs)"
  using assms
proof (induction qs arbitrary: k t)
  case Nil
  have "run_loop e k [] (Some t) = (Inr (), Some (t\<lparr>rows := rows t @ []\<rparr>))" by simp
  then show ?case unfolding successes_Nil by (intro exI[of _ "[]"]) simp
next
  case (Cons q qs)
  show ?case
  proof (cases "call_llm e k q")
    case (Inl err)
    from Cons.IH[OF Cons.prems, of "Suc k"] obtain new where
      "run_loop e (Suc k) qs (Some t) = (Inr (), Some (t\<lparr>rows := rows t @ new\<rparr>))"
      and "map (\<lambda>r. cell r ''query'') new = map StrV (successes e (Suc k) qs)" by blast
    with Inl have "run_loop e k (q # qs) (Some t) = (Inr (), Some (t\<lparr>rows := rows t @ new\<rparr>))"
      and "map (\<lambda>r. cell r ''query'') new = map StrV (successes e k (q # qs))"
      by (simp_all add: successes_Cons)
    then show ?thesis by blast
  next
    case (Inr resp)
    obtain w cat s where an: "analyze_response resp = (w, cat, s)"
      by (cases "analyze_response resp") auto
    let ?r = "new_row t (QueryResult (now e k) q w False cat s (take 200 resp) resp)"
    let ?t = "t\<lparr>rows := rows t @ [?r]\<rparr>"
    have add: "add_result (now e k) q w False s (take 200 resp) resp cat (Some t) = Inr (Some ?t)"
      using Cons.prems by (rule add_result_ok)
    have "has_columns QueryResult_columns ?t" using Cons.prems by simp
    from Cons.IH[OF this, of "Suc k"] obtain new where
      run: "run_loop e (Suc k) qs (Some ?t) = (Inr (), Some (?t\<lparr>rows := rows ?t @ new\<rparr>))"
      and qs: "map (\<lambda>r. cell r ''query'') new = map StrV (successes e (Suc k) qs)" by blast
    from Cons.prems have "''query'' \<in> set (columns t)"
      by (rule has_columns_mem) (simp add: QueryResult_columns_def)
    then have q: "cell ?r ''query'' = StrV q"
      by (rule cell_new_row) (simp_all add: QueryResult_def stored_val_def)
    have "run_loop e k (q # qs) (Some t) = (Inr (), Some (t\<lparr>rows := rows t @ ?r # new\<rparr>))"
      using Inr an add run by (simp add: Let_def)
    moreover have "map (\<lambda>r. cell r ''query'') (?r # new) = map StrV (successes e k (q # qs))"
      using Inr q qs by (simp add: successes_Cons)
    ultimately show ?thesis by blast
  qed
qed

text \<open>
  Whatever the table and the outcome, a run only appends rows, and every row it appends
  is one the job built.
\<close>

lemma run_loop_rows:
  assumes P: "\<And>t k q resp. has_columns (tl QueryResult_columns) t \<Longrightarrow>
      P (new_row t (QueryResult (now e k) q (fst (analyze_response resp)) False
           (fst (snd (analyze_response resp))) (snd (snd (analyze_response resp)))
           (take 200 resp) resp))"
  shows "\<exists>new. snd (run_loop e k qs (Some t)) = Some (t\<lparr>rows := rows t @ new\<rparr>) \<and> list_all P new"
proof (induction qs arbitrary: k t)
  case Nil
  have "snd (run_loop e k [] (Some t)) = Some (t\<lparr>rows := rows t @ []\<rparr>)" by simp
  then show ?case by (intro exI[of _ "[]"]) simp
next
  case (Cons q qs)
  show ?case
  proof (cases "call_llm e k q")
    case (Inl err)
    with Cons.IH[of "Suc k" t] show ?thesis by simp
  next
    case (Inr resp)
    obtain w cat s where an: "analyze_response resp = (w, cat, s)"
      by (cases "analyze_response resp") auto
    let ?r = "new_row t (QueryResult (now e k) q w False cat s (take 200 resp) resp)"
    let ?t = "t\<lparr>rows := rows t @ [?r]\<rparr>"
    show ?thesis
    proof (cases "add_result (now e k) q w False s (take 200 resp) resp cat (Some t)")
      case (Inl err)
      with Inr an have "snd (run_loop e k (q # qs) (Some t)) = Some (t\<lparr>rows := rows t @ []\<rparr>)"
        by (simp add: Let_def)
      then show ?thesis by (intro exI[of _ "[]"]) simp
    next
      case add: (Inr db')
      from add_result_Inr[OF add] have cols: "has_columns (tl QueryResult_columns) t"
        and db': "db' = Some ?t" by auto
      from P[OF cols, of k q resp] an have Pr: "P ?r" by simp
      from Cons.IH[of "Suc k" ?t] obtain new where
        run: "snd (run_loop e (Suc k) qs (Some ?t)) = Some (?t\<lparr>rows := rows ?t @ new\<rparr>)"
        and new: "list_all P new" by blast
      have "snd (run_loop e k (q # qs) (Some t)) = Some (t\<lparr>rows := rows t @ ?r # new\<rparr>)"
        using Inr an add db' run by (simp add: Let_def)
      moreover have "list_all P (?r # new)" using Pr new by simp
      ultimately show ?thesis by blast
    qed
  qed
qed

text \<open>
  The example world: only the twelfth call fails, and a run on a fresh table appends 44
  rows.
\<close>

lemma isl_call_llm_example: "isl (call_llm example_env k q) \<longleftrightarrow> k = 11"
  by (simp add: call_llm_def get_api_key_def example_env_def)

lemma failures_step:
  "failures e k (q # qs) =
     (if isl (call_llm e k q) then q # failures e (k + 1) qs else failures e (k + 1) qs)"
  by (simp add: failures_Cons)

lemma failures_example:
  "failures example_env 0 QUERIES = [''What are the best platforms for vintage furniture?'']"
  unfolding QUERIES_def
  by (simp add: failures_step failures_Nil isl_call_llm_example)

lemma run_example_rows:
  "\<exists>new. run_queries example_env (Some \<lparr>columns = QueryResult_columns, rows = []\<rparr>)
            = (Inr (), Some \<lparr>columns = QueryResult_columns, rows = new\<rparr>) \<and>
          length new = 44"
proof -
  from run_loop_accepts[OF has_columns_fresh, of example_env 0 QUERIES] obtain new where
    run: "run_queries example_env (Some \<lparr>columns = QueryResult_columns, rows = []\<rparr>)
            = (Inr (), Some \<lparr>columns = QueryResult_columns, rows = new\<rparr>)"
    and qs: "map (\<lambda>r. cell r ''query'') new = map StrV (successes example_env 0 QUERIES)"
    unfolding run_queries_def by auto
  from qs have "length new = length (successes example_env 0 QUERIES)"
    by (metis length_map)
  also have "\<dots> = 44"
    using length_successes_failures[of example_env 0 QUERIES]
    by (simp add: length_QUERIES failures_example)
  finally show ?thesis using run by blast
qed

text \<open>
  C3.  The catalog has 45 queries.  In a run, on a store that has the columns of the
  model, in which exactly one gateway call raises and all others answer, \<open>run_queries\<close>
  returns normally, so no exception escapes it, and has appended exactly 44 rows: one
  for each answered query of the whole catalog, in catalog order.
\<close>

theorem run_queries_one_failure:
  assumes "has_columns QueryResult_columns t"
    and "length (failures e 0 QUERIES) = 1"
  shows "length QUERIES = 45 \<and>
    (\<exists>new. run_queries e (Some t) = (Inr (), Some (t\<lparr>rows := rows t @ new\<rparr>)) \<and>
        length new = 44 \<and>
        map (\<lambda>r. cell r ''query'') new = map StrV (successes e 0 QUERIES))"
proof -
  from run_loop_accepts[OF assms(1), of e 0 QUERIES] obtain new where
    run: "run_queries e (Some t) = (Inr (), Some (t\<lparr>rows := rows t @ new\<rparr>))"
    and qs: "map (\<lambda>r. cell r ''query'') new = map StrV (successes e 0 QUERIES)"
    unfolding run_queries_def by blast
  from qs have "length new = length (successes e 0 QUERIES)"
    by (metis length_map)
  also have "\<dots> = 44"
    using length_successes_failures[of e 0 QUERIES] assms(2) by (simp add: length_QUERIES)
  finally have "length new = 44" .
  with run qs length_QUERIES show ?thesis by blast
qed

theorem run_queries_one_failure_witness:
  "has_columns QueryResult_columns \<lparr>columns = QueryResult_columns, rows = []\<rparr> \<and>
   length (failures example_env 0 QUERIES) = 1 \<and>
   init_db None = Some \<lparr>columns = QueryResult_columns, rows = []\<rparr> \<and>
   (\<exists>new. run_queries example_env (init_db None)
            = (Inr (), Some \<lparr>columns = QueryResult_columns, rows = new\<rparr>) \<and>
          length new = 44)"
proof -
  have one: "length (failures example_env 0 QUERIES) = 1" by (simp add: failures_example)
  from run_queries_one_failure[OF has_columns_fresh one] has_columns_fresh one init_db_None
  show ?thesis by auto
qed

text \<open>
  C4.  Every row the job appends stores as excerpt exactly the first 200 characters of
  the full response stored in the same row: the full response itself when that has at
  most 200 characters, and otherwise a text different from it.
\<close>

theorem run_queries_excerpt:
  "\<exists>new. snd (run_queries e (Some t)) = Some (t\<lparr>rows := rows t @ new\<rparr>) \<and>
     list_all (\<lambda>r. \<exists>full. cell r ''full_response'' = StrV full \<and>
                  cell r ''excerpt'' = StrV (take 200 full) \<and>
                  (if length full \<le> 200 then cell r ''excerpt'' = StrV full
                   else cell r ''excerpt'' \<noteq> StrV full)) new"
  unfolding run_queries_def
proof (rule run_loop_rows)
  fix t :: table and k q resp
  let ?r = "new_row t (QueryResult (now e k) q (fst (analyze_response resp)) False
              (fst (snd (analyze_response resp))) (snd (snd (analyze_response resp)))
              (take 200 resp) resp)"
  assume cols: "has_columns (tl QueryResult_columns) t"
  then have "''full_response'' \<in> set (columns t)"
    by (rule has_columns_mem) (simp add: QueryResult_columns_def)
  then have 1: "cell ?r ''full_response'' = StrV resp"
    by (rule cell_new_row) (simp_all add: QueryResult_def stored_val_def)
  from cols have "''excerpt'' \<in> set (columns t)"
    by (rule has_columns_mem) (simp add: QueryResult_columns_def)
  then have 2: "cell ?r ''excerpt'' = StrV (take 200 resp)"
    by (rule cell_new_row) (simp_all add: QueryResult_def stored_val_def)
  from 1 2 show "\<exists>full. cell ?r ''full_response'' = StrV full \<and>
                  cell ?r ''excerpt'' = StrV (take 200 full) \<and>
                  (if length full \<le> 200 then cell ?r ''excerpt'' = StrV full
                   else cell ?r ''excerpt'' \<noteq> StrV full)"
    by (auto dest: arg_cong[where f = length])
qed

theorem run_queries_excerpt_witness:
  "\<exists>new. snd (run_queries example_env (Some \<lparr>columns = QueryResult_columns, rows = []\<rparr>))
            = Some \<lparr>columns = QueryResult_columns, rows = new\<rparr> \<and>
     length new = 44 \<and>
     list_all (\<lambda>r. \<exists>full. cell r ''full_response'' = StrV full \<and>
                  cell r ''excerpt'' = StrV (take 200 full) \<and>
                  (if length full \<le> 200 then cell r ''excerpt'' = StrV full
                   else cell r ''excerpt'' \<noteq> StrV full)) new"
proof -
  from run_example_rows obtain new where
    run: "run_queries example_env (Some \<lparr>columns = QueryResult_columns, rows = []\<rparr>)
            = (Inr (), Some \<lparr>columns = QueryResult_columns, rows = new\<rparr>)"
    and len: "length new = 44" by blast
  from run_queries_excerpt[of example_env "\<lparr>columns = QueryResult_columns, rows = []\<rparr>"]
  obtain new' where
    "snd (run_queries example_env (Some \<lparr>columns = QueryResult_columns, rows = []\<rparr>))
            = Some \<lparr>columns = QueryResult_columns, rows = new'\<rparr>"
    and P: "list_all (\<lambda>r. \<exists>full. cell r ''full_response'' = StrV full \<and>
                  cell r ''excerpt'' = StrV (take 200 full) \<and>
                  (if length full \<le> 200 then cell r ''excerpt'' = StrV full
                   else cell r ''excerpt'' \<noteq> StrV full)) new'"
    by auto
  with run have "new' = new" by simp
  with run len P show ?thesis by auto
qed

text \<open>
  C10.  The table of the model has a column \<open>chairish_mentioned\<close>, which is not a field
  of the specified schema, and every row the job appends holds \<open>False\<close> in it.
\<close>

theorem run_queries_chairish_false:
  "''chairish_mentioned'' \<in> set QueryResult_columns \<and>
   ''chairish_mentioned'' \<notin> set specified_schema \<and>
   (\<exists>new. snd (run_queries e (Some t)) = Some (t\<lparr>rows := rows t @ new\<rparr>) \<and>
      list_all (\<lambda>r. cell r ''chairish_mentioned'' = BoolV False) new)"
proof -
  have "\<exists>new. snd (run_loop e 0 QUERIES (Some t)) = Some (t\<lparr>rows := rows t @ new\<rparr>) \<and>
      list_all (\<lambda>r. cell r ''chairish_mentioned'' = BoolV False) new"
  proof (rule run_loop_rows)
    fix t :: table and k q resp
    assume "has_columns (tl QueryResult_columns) t"
    then have "''chairish_mentioned'' \<in> set (columns t)"
      by (rule has_columns_mem) (simp add: QueryResult_columns_def)
    then show "cell (new_row t (QueryResult (now e k) q (fst (analyze_response resp)) False
              (fst (snd (analyze_response resp))) (snd (snd (analyze_response resp)))
              (take 200 resp) resp)) ''chairish_mentioned'' = BoolV False"
      by (rule cell_new_row) (simp_all add: QueryResult_def stored_val_def)
  qed
  then show ?thesis
    by (simp add: run_queries_def QueryResult_columns_def specified_schema_def)
qed

theorem run_queries_chairish_false_witness:
  "\<exists>new. snd (run_queries example_env (Some \<lparr>columns = QueryResult_columns, rows = []\<rparr>))
            = Some \<lparr>columns = QueryResult_columns, rows = new\<rparr> \<and>
     length new = 44 \<and>
     list_all (\<lambda>r. cell r ''chairish_mentioned'' = BoolV False) new"
proof -
  from run_example_rows obtain new where
    run: "run_queries example_env (Some \<lparr>columns = QueryResult_columns, rows = []\<rparr>)
            = (Inr (), Some \<lparr>columns = QueryResult_columns, rows = new\<rparr>)"
    and len: "length new = 44" by blast
  from run_queries_chairish_false[of example_env "\<lparr>columns = QueryResult_columns, rows = []\<rparr>"]
  obtain new' where
    "snd (run_queries example_env (Some \<lparr>columns = QueryResult_columns, rows = []\<rparr>))
            = Some \<lparr>columns = QueryResult_columns, rows = new'\<rparr>"
    and P: "list_all (\<lambda>r. cell r ''chairish_mentioned'' = BoolV False) new'"
    by auto
  with run have "new' = new" by simp
  with run len P show ?thesis by auto
qed

end
